theory Spec2Isabelle
  imports Complex_Main
begin

section \<open>Numbers, errors and arrays\<close>

text \<open>
  The program is \<^verbatim>\<open>src/neural_networks.py\<close>. Its numbers are numpy floats. The model
  of the network takes them as real numbers, so rounding, overflow to infinity and NaN
  are outside that model, and a statement about it is a statement about the real-valued
  computation. The statements whose truth turns on rounding, the ranges of the
  activation derivatives and of the output of \<open>forward\<close> and a step of \<open>backward\<close> at a
  saturated output, are made about a second model, in float64 arithmetic.

  The exceptions the modelled code can raise: a missing dictionary key, a missing
  attribute, and numpy's shape mismatch.
\<close>

datatype error = KeyError | AttributeError | ValueError

text \<open>
  A two-dimensional numpy array: its column count and its rows. The row count is the
  number of rows, so that an array of shape \<open>(0, n)\<close> keeps its \<open>n\<close>.
\<close>

record 'a ndarray =
  ncols :: nat
  rows :: "'a list list"

definition nrows :: "'a ndarray \<Rightarrow> nat" where
  "nrows A = length (rows A)"

definition shape :: "'a ndarray \<Rightarrow> nat \<times> nat" where
  "shape A = (nrows A, ncols A)"

definition entry :: "'a ndarray \<Rightarrow> nat \<Rightarrow> nat \<Rightarrow> 'a" where
  "entry A i j = rows A ! i ! j"

text \<open>\<open>has_shape A m n\<close>: \<open>A\<close> is a proper array of shape \<open>(m, n)\<close>, no row ragged.\<close>

definition has_shape :: "'a ndarray \<Rightarrow> nat \<Rightarrow> nat \<Rightarrow> bool" where
  "has_shape A m n \<longleftrightarrow>
     length (rows A) = m \<and> ncols A = n \<and> list_all (\<lambda>r. length r = n) (rows A)"

text \<open>The array of shape \<open>(m, n)\<close> whose entry \<open>(i, j)\<close> is \<open>f i j\<close>.\<close>

definition tabulate :: "nat \<Rightarrow> nat \<Rightarrow> (nat \<Rightarrow> nat \<Rightarrow> 'a) \<Rightarrow> 'a ndarray" where
  "tabulate m n f = \<lparr>ncols = n, rows = map (\<lambda>i. map (\<lambda>j. f i j) [0..<n]) [0..<m]\<rparr>"

text \<open>\<open>np.zeros((m, n))\<close>.\<close>

definition zeros :: "nat \<Rightarrow> nat \<Rightarrow> real ndarray" where
  "zeros m n = \<lparr>ncols = n, rows = replicate m (replicate n 0)\<rparr>"

text \<open>A numpy function applied to an array acts on every entry.\<close>

definition elementwise :: "('a \<Rightarrow> 'b) \<Rightarrow> 'a ndarray \<Rightarrow> 'b ndarray" where
  "elementwise f A = \<lparr>ncols = ncols A, rows = map (map f) (rows A)\<rparr>"

text \<open>The columns of an array, and \<open>A.T\<close>.\<close>

definition cols :: "'a ndarray \<Rightarrow> 'a list list" where
  "cols A = map (\<lambda>j. map (\<lambda>r. r ! j) (rows A)) [0..<ncols A]"

definition transpose_np :: "'a ndarray \<Rightarrow> 'a ndarray" where
  "transpose_np A = \<lparr>ncols = nrows A, rows = cols A\<rparr>"

text \<open>
  \<open>A @ B\<close>: numpy raises ValueError unless the inner dimensions agree; entry \<open>(i, j)\<close>
  is the dot product of row \<open>i\<close> of \<open>A\<close> and column \<open>j\<close> of \<open>B\<close>.
\<close>

definition dot :: "real list \<Rightarrow> real list \<Rightarrow> real" where
  "dot xs ys = sum_list (map2 (*) xs ys)"

definition matmul :: "real ndarray \<Rightarrow> real ndarray \<Rightarrow> error + real ndarray" where
  "matmul A B =
     (if ncols A \<noteq> nrows B then Inl ValueError
      else Inr \<lparr>ncols = ncols B, rows = map (\<lambda>r. map (\<lambda>c. dot r c) (cols B)) (rows A)\<rparr>)"

text \<open>
  Broadcasting of two-dimensional arrays: two extents are compatible when they are equal
  or one of them is 1, and the extent 1 is stretched to the other.
\<close>

definition bdim :: "nat \<Rightarrow> nat \<Rightarrow> nat option" where
  "bdim a b = (if a = b then Some a else if a = 1 then Some b
               else if b = 1 then Some a else None)"

definition stretch :: "nat \<Rightarrow> 'a list \<Rightarrow> 'a list" where
  "stretch n xs = (if length xs = n then xs else replicate n (hd xs))"

definition binop ::
  "(real \<Rightarrow> real \<Rightarrow> real) \<Rightarrow> real ndarray \<Rightarrow> real ndarray \<Rightarrow> error + real ndarray" where
  "binop f A B =
     (case (bdim (nrows A) (nrows B), bdim (ncols A) (ncols B)) of
        (Some r, Some c) \<Rightarrow>
          Inr \<lparr>ncols = c,
               rows = map2 (\<lambda>ra rb. map2 f (stretch c ra) (stretch c rb))
                        (stretch r (rows A)) (stretch r (rows B))\<rparr>
      | _ \<Rightarrow> Inl ValueError)"

definition add_np :: "real ndarray \<Rightarrow> real ndarray \<Rightarrow> error + real ndarray" where
  "add_np = binop (+)"

definition sub_np :: "real ndarray \<Rightarrow> real ndarray \<Rightarrow> error + real ndarray" where
  "sub_np = binop (-)"

definition mul_np :: "real ndarray \<Rightarrow> real ndarray \<Rightarrow> error + real ndarray" where
  "mul_np = binop (*)"

text \<open>
  \<open>A -= B\<close> writes into \<open>A\<close>: numpy raises ValueError when the broadcast result does not
  have the shape of \<open>A\<close>.
\<close>

definition isub_np :: "real ndarray \<Rightarrow> real ndarray \<Rightarrow> error + real ndarray" where
  "isub_np A B =
     (case sub_np A B of
        Inl e \<Rightarrow> Inl e
      | Inr C \<Rightarrow> if shape C = shape A then Inr C else Inl ValueError)"

text \<open>\<open>np.sum(A, axis=0, keepdims=True)\<close>: one row holding the sum of each column.\<close>

definition sum_axis0 :: "real ndarray \<Rightarrow> real ndarray" where
  "sum_axis0 A = \<lparr>ncols = ncols A, rows = [map sum_list (cols A)]\<rparr>"

text \<open>An array divided by the integer \<open>m\<close>, and a float times an array.\<close>

definition div_scalar :: "real ndarray \<Rightarrow> nat \<Rightarrow> real ndarray" where
  "div_scalar A m = elementwise (\<lambda>v. v / real m) A"

definition scale :: "real \<Rightarrow> real ndarray \<Rightarrow> real ndarray" where
  "scale c A = elementwise (\<lambda>v. c * v) A"

text \<open>Sequencing of operations that may raise.\<close>

definition bind_res :: "error + 'a \<Rightarrow> ('a \<Rightarrow> error + 'b) \<Rightarrow> error + 'b" where
  "bind_res r f = (case r of Inl e \<Rightarrow> Inl e | Inr v \<Rightarrow> f v)"

text \<open>Reading an instance attribute that may not have been assigned yet.\<close>

definition attr :: "'a option \<Rightarrow> error + 'a" where
  "attr v = (case v of None \<Rightarrow> Inl AttributeError | Some a \<Rightarrow> Inr a)"

section \<open>Activation functions and their derivatives\<close>

text \<open>One entry of the array each function is applied to.\<close>

definition tanh_fn :: "real \<Rightarrow> real" where
  "tanh_fn x = tanh x"

definition tanh_derivative :: "real \<Rightarrow> real" where
  "tanh_derivative x = 1 - (tanh x)\<^sup>2"

definition relu :: "real \<Rightarrow> real" where
  "relu x = max 0 x"

definition relu_derivative :: "real \<Rightarrow> real" where
  "relu_derivative x = (if x > 0 then 1 else 0)"

definition sigmoid :: "real \<Rightarrow> real" where
  "sigmoid x = 1 / (1 + exp (- x))"

definition sigmoid_derivative :: "real \<Rightarrow> real" where
  "sigmoid_derivative x = (let s = sigmoid x in s * (1 - s))"

text \<open>
  The two dictionaries of the constructor, from an activation name to the function and
  to its derivative, and the lookup \<open>d[k]\<close> that raises KeyError on a missing key.
\<close>

definition activation_fns :: "string \<rightharpoonup> (real \<Rightarrow> real)" where
  "activation_fns = map_of [(''tanh'', tanh_fn), (''relu'', relu), (''sigmoid'', sigmoid)]"

definition activation_derivatives :: "string \<rightharpoonup> (real \<Rightarrow> real)" where
  "activation_derivatives =
     map_of [(''tanh'', tanh_derivative), (''relu'', relu_derivative),
             (''sigmoid'', sigmoid_derivative)]"

definition lookup :: "('k \<rightharpoonup> 'v) \<Rightarrow> 'k \<Rightarrow> error + 'v" where
  "lookup d k = (case d k of None \<Rightarrow> Inl KeyError | Some v \<Rightarrow> Inr v)"

section \<open>The global random generator\<close>

text \<open>
  \<open>np.random.seed\<close> and \<open>np.random.randn\<close> are numpy's, not this program's: they are
  parameters of the model. The generator is a state machine: \<open>seed n\<close> is the state
  after \<open>np.random.seed(n)\<close>, and \<open>gauss g\<close> draws one standard normal sample from the
  state \<open>g\<close> and gives the next state. \<open>randn(m, n)\<close> fills its array row by row.
\<close>

record 'g np_random =
  seed :: "nat \<Rightarrow> 'g"
  gauss :: "'g \<Rightarrow> real \<times> 'g"

fun draw_row :: "'g np_random \<Rightarrow> nat \<Rightarrow> 'g \<Rightarrow> real list \<times> 'g" where
  "draw_row R 0 g = ([], g)"
| "draw_row R (Suc n) g =
     (let (x, g1) = gauss R g; (xs, g2) = draw_row R n g1 in (x # xs, g2))"

fun draw_rows :: "'g np_random \<Rightarrow> nat \<Rightarrow> nat \<Rightarrow> 'g \<Rightarrow> real list list \<times> 'g" where
  "draw_rows R 0 n g = ([], g)"
| "draw_rows R (Suc m) n g =
     (let (r, g1) = draw_row R n g; (rs, g2) = draw_rows R m n g1 in (r # rs, g2))"

definition randn :: "'g np_random \<Rightarrow> nat \<Rightarrow> nat \<Rightarrow> 'g \<Rightarrow> real ndarray \<times> 'g" where
  "randn R m n g = (let (rs, g1) = draw_rows R m n g in (\<lparr>ncols = n, rows = rs\<rparr>, g1))"

section \<open>The network\<close>

text \<open>
  An instance of class \<open>MLP\<close>. The attributes \<open>Z1\<close>, \<open>A1\<close>, \<open>Z2\<close>, \<open>A2\<close> do not exist
  until \<open>forward\<close> assigns them: \<open>None\<close> is the missing attribute. \<open>hidden_features\<close>
  starts as Python's \<open>None\<close>, and \<open>gradients\<close> as the empty dictionary.
\<close>

record mlp =
  lr :: real
  W1 :: "real ndarray"
  b1 :: "real ndarray"
  W2 :: "real ndarray"
  b2 :: "real ndarray"
  activation_fn :: "real \<Rightarrow> real"
  activation_derivative :: "real \<Rightarrow> real"
  hidden_features :: "real ndarray option"
  gradients :: "string \<rightharpoonup> real ndarray"
  Z1 :: "real ndarray option"
  A1 :: "real ndarray option"
  Z2 :: "real ndarray option"
  A2 :: "real ndarray option"

text \<open>
  \<open>MLP.__init__\<close>: reseeds the global generator, draws the two weight matrices, and only
  then looks the activation name up. The result is the instance or the exception, with
  the generator's state after the call.
\<close>

definition MLP_init ::
  "'g np_random \<Rightarrow> 'g \<Rightarrow> nat \<Rightarrow> nat \<Rightarrow> nat \<Rightarrow> real \<Rightarrow> string \<Rightarrow> (error + mlp) \<times> 'g" where
  "MLP_init R g input_dim hidden_dim output_dim rate activation =
     (let g0 = seed R 0;
          (r1, g1) = randn R input_dim hidden_dim g0;
          w1 = elementwise (\<lambda>v. v * (1 / 10)) r1;
          c1 = zeros 1 hidden_dim;
          (r2, g2) = randn R hidden_dim output_dim g1;
          w2 = elementwise (\<lambda>v. v * (1 / 10)) r2;
          c2 = zeros 1 output_dim
      in case lookup activation_fns activation of
           Inl e \<Rightarrow> (Inl e, g2)
         | Inr f \<Rightarrow>
             (case lookup activation_derivatives activation of
                Inl e \<Rightarrow> (Inl e, g2)
              | Inr f' \<Rightarrow>
                  (Inr \<lparr>lr = rate, W1 = w1, b1 = c1, W2 = w2, b2 = c2,
                        activation_fn = f, activation_derivative = f',
                        hidden_features = None, gradients = Map.empty,
                        Z1 = None, A1 = None, Z2 = None, A2 = None\<rparr>, g2)))"

text \<open>
  \<open>MLP.forward\<close>: the instance after the call and the returned array or the exception.
  An exception leaves the attributes assigned before it in place.
\<close>

definition forward :: "mlp \<Rightarrow> real ndarray \<Rightarrow> mlp \<times> (error + real ndarray)" where
  "forward s X =
     (case bind_res (matmul X (W1 s)) (\<lambda>p. add_np p (b1 s)) of
        Inl e \<Rightarrow> (s, Inl e)
      | Inr z1 \<Rightarrow>
          let s1 = s\<lparr>Z1 := Some z1\<rparr>;
              a1 = elementwise (activation_fn s1) z1;
              s2 = s1\<lparr>A1 := Some a1\<rparr>
          in (case bind_res (matmul a1 (W2 s2)) (\<lambda>p. add_np p (b2 s2)) of
                Inl e \<Rightarrow> (s2, Inl e)
              | Inr z2 \<Rightarrow>
                  let s3 = s2\<lparr>Z2 := Some z2\<rparr>;
                      a2 = elementwise sigmoid z2;
                      s4 = s3\<lparr>A2 := Some a2\<rparr>;
                      s5 = s4\<lparr>hidden_features := A1 s4\<rparr>
                  in (s5, Inr a2)))"

text \<open>
  \<open>MLP.backward\<close>: the instance after the call and the exception, if one was raised.
  The four gradients are stored as they are computed, then the four parameters are
  updated in the order \<open>W2\<close>, \<open>b2\<close>, \<open>W1\<close>, \<open>b1\<close>.
\<close>

definition store_gradient :: "string \<Rightarrow> real ndarray \<Rightarrow> mlp \<Rightarrow> mlp" where
  "store_gradient k v s = s\<lparr>gradients := (gradients s)(k \<mapsto> v)\<rparr>"

definition step_size :: "mlp \<Rightarrow> string \<Rightarrow> error + real ndarray" where
  "step_size s k = bind_res (lookup (gradients s) k) (\<lambda>g. Inr (scale (lr s) g))"

definition backward :: "mlp \<Rightarrow> real ndarray \<Rightarrow> real ndarray \<Rightarrow> mlp \<times> error option" where
  "backward s X y =
     (let m = nrows X in
      case bind_res (attr (A2 s)) (\<lambda>a2. sub_np a2 y) of
        Inl e \<Rightarrow> (s, Some e)
      | Inr dZ2 \<Rightarrow>
      (case bind_res (attr (A1 s)) (\<lambda>a1. matmul (transpose_np a1) dZ2) of
        Inl e \<Rightarrow> (s, Some e)
      | Inr p2 \<Rightarrow>
      let s1 = store_gradient ''W2'' (div_scalar p2 m) s;
          s2 = store_gradient ''b2'' (div_scalar (sum_axis0 dZ2) m) s1
      in
      (case matmul dZ2 (transpose_np (W2 s2)) of
        Inl e \<Rightarrow> (s2, Some e)
      | Inr dA1 \<Rightarrow>
      (case bind_res (attr (Z1 s2))
              (\<lambda>z1. mul_np dA1 (elementwise (activation_derivative s2) z1)) of
        Inl e \<Rightarrow> (s2, Some e)
      | Inr dZ1 \<Rightarrow>
      (case matmul (transpose_np X) dZ1 of
        Inl e \<Rightarrow> (s2, Some e)
      | Inr p1 \<Rightarrow>
      let s3 = store_gradient ''W1'' (div_scalar p1 m) s2;
          s4 = store_gradient ''b1'' (div_scalar (sum_axis0 dZ1) m) s3
      in
      (case bind_res (step_size s4 ''W2'') (isub_np (W2 s4)) of
        Inl e \<Rightarrow> (s4, Some e)
      | Inr w2 \<Rightarrow>
      let s5 = s4\<lparr>W2 := w2\<rparr> in
      (case bind_res (step_size s5 ''b2'') (isub_np (b2 s5)) of
        Inl e \<Rightarrow> (s5, Some e)
      | Inr c2 \<Rightarrow>
      let s6 = s5\<lparr>b2 := c2\<rparr> in
      (case bind_res (step_size s6 ''W1'') (isub_np (W1 s6)) of
        Inl e \<Rightarrow> (s6, Some e)
      | Inr w1 \<Rightarrow>
      let s7 = s6\<lparr>W1 := w1\<rparr> in
      (case bind_res (step_size s7 ''b1'') (isub_np (b1 s7)) of
        Inl e \<Rightarrow> (s7, Some e)
      | Inr c1 \<Rightarrow> (s7\<lparr>b1 := c1\<rparr>, None))))))))))"

section \<open>The dataset\<close>

text \<open>
  \<open>generate_data\<close>: reseeds the global generator with 0, draws \<open>n_samples\<close> points of the
  plane, and labels each by whether it lies outside the unit circle. The labels are an
  integer array of shape \<open>(n_samples, 1)\<close>.
\<close>

definition column :: "'a ndarray \<Rightarrow> nat \<Rightarrow> 'a list" where
  "column A j = map (\<lambda>r. r ! j) (rows A)"

definition reshape_column :: "'a list \<Rightarrow> 'a ndarray" where
  "reshape_column vs = \<lparr>ncols = 1, rows = map (\<lambda>v. [v]) vs\<rparr>"

definition generate_data ::
  "'g np_random \<Rightarrow> 'g \<Rightarrow> nat \<Rightarrow> (real ndarray \<times> int ndarray) \<times> 'g" where
  "generate_data R g n_samples =
     (let g0 = seed R 0;
          (X, g1) = randn R n_samples 2 g0;
          sq = map2 (+) (map (\<lambda>v. v\<^sup>2) (column X 0)) (map (\<lambda>v. v\<^sup>2) (column X 1));
          y = reshape_column (map (\<lambda>v. if v > 1 then (1::int) else 0) sq)
      in ((X, y), g1))"

section \<open>Well-formed instances and the loss\<close>

text \<open>
  The shapes the constructor gives the four parameters, for the dimensions
  \<open>input_dim = d\<close>, \<open>hidden_dim = h\<close> and \<open>output_dim = k\<close>.
\<close>

definition wf_mlp :: "mlp \<Rightarrow> nat \<Rightarrow> nat \<Rightarrow> nat \<Rightarrow> bool" where
  "wf_mlp s d h k \<longleftrightarrow>
     has_shape (W1 s) d h \<and> has_shape (b1 s) 1 h \<and> has_shape (W2 s) h k \<and> has_shape (b2 s) 1 k"

text \<open>
  Modelled from the spec: the mean squared-error loss of predictions \<open>P\<close> against labels
  \<open>y\<close> of the same shape; the program itself never computes a loss.
\<close>

definition mse_loss :: "real ndarray \<Rightarrow> real ndarray \<Rightarrow> real" where
  "mse_loss P y =
     sum_list (concat (map2 (map2 (\<lambda>p t. (p - t)\<^sup>2)) (rows P) (rows y)))
       / real (nrows P * ncols P)"

text \<open>
  Modelled from the spec: the loss of the network's predictions on a batch, the mean
  squared error of what \<open>forward\<close> returns against the labels.
\<close>

definition batch_loss :: "mlp \<Rightarrow> real ndarray \<Rightarrow> real ndarray \<Rightarrow> error + real" where
  "batch_loss s X y =
     (case snd (forward s X) of Inl e \<Rightarrow> Inl e | Inr P \<Rightarrow> Inr (mse_loss P y))"

text \<open>
  One \<open>backward(X, y)\<close> call strictly decreases the loss on the batch: it raises nothing,
  and the loss of the instance after the call is below the loss of the instance before.
\<close>

definition backward_decreases_loss :: "mlp \<Rightarrow> real ndarray \<Rightarrow> real ndarray \<Rightarrow> bool" where
  "backward_decreases_loss s X y =
     (case (backward s X y, batch_loss s X y) of
        ((s', None), Inr before) \<Rightarrow>
          (case batch_loss s' X y of Inr after \<Rightarrow> after < before | Inl e \<Rightarrow> False)
      | _ \<Rightarrow> False)"



text \<open>The instance was configured with one of the three pairs the constructor knows.\<close>

definition supported_activation :: "mlp \<Rightarrow> bool" where
  "supported_activation s \<longleftrightarrow>
     activation_fn s = tanh_fn \<and> activation_derivative s = tanh_derivative
     \<or> activation_fn s = relu \<and> activation_derivative s = relu_derivative
     \<or> activation_fn s = sigmoid \<and> activation_derivative s = sigmoid_derivative"

section \<open>The forward and backward pass, entry by entry\<close>

text \<open>
  The arrays the specification describes, written entry by entry with explicit sums:
  they are what the list computations of \<open>forward\<close> and \<open>backward\<close> are compared with.
  The output delta is \<open>A2 - y\<close>; the gradient of a weight matrix is \<open>A\<^sup>T D / m\<close>; the
  gradient of a bias is the column sum of the delta over \<open>m\<close>; the hidden delta is
  \<open>(D W\<^sup>T)\<close> times the activation derivative at the hidden pre-activation; an update
  is the parameter minus the learning rate times its gradient.
\<close>

definition spec_affine :: "real ndarray \<Rightarrow> real ndarray \<Rightarrow> real ndarray \<Rightarrow> real ndarray" where
  "spec_affine A W b =
     tabulate (nrows A) (ncols W)
       (\<lambda>i j. (\<Sum>l<ncols A. entry A i l * entry W l j) + entry b 0 j)"

definition spec_apply :: "(real \<Rightarrow> real) \<Rightarrow> real ndarray \<Rightarrow> real ndarray" where
  "spec_apply f A = tabulate (nrows A) (ncols A) (\<lambda>i j. f (entry A i j))"

definition spec_delta_out :: "real ndarray \<Rightarrow> real ndarray \<Rightarrow> real ndarray" where
  "spec_delta_out a2 y = tabulate (nrows a2) (ncols a2) (\<lambda>i j. entry a2 i j - entry y i j)"

definition spec_grad_weights :: "real ndarray \<Rightarrow> real ndarray \<Rightarrow> nat \<Rightarrow> real ndarray" where
  "spec_grad_weights A D m =
     tabulate (ncols A) (ncols D) (\<lambda>i j. (\<Sum>l<m. entry A l i * entry D l j) / real m)"

definition spec_grad_bias :: "real ndarray \<Rightarrow> nat \<Rightarrow> real ndarray" where
  "spec_grad_bias D m = tabulate 1 (ncols D) (\<lambda>i j. (\<Sum>l<m. entry D l j) / real m)"

definition spec_delta_hidden ::
  "real ndarray \<Rightarrow> real ndarray \<Rightarrow> (real \<Rightarrow> real) \<Rightarrow> real ndarray \<Rightarrow> real ndarray" where
  "spec_delta_hidden D W f' z1 =
     tabulate (nrows z1) (ncols z1)
       (\<lambda>i j. (\<Sum>l<ncols D. entry D i l * entry W j l) * f' (entry z1 i j))"

definition spec_update :: "real ndarray \<Rightarrow> real \<Rightarrow> real ndarray \<Rightarrow> real ndarray" where
  "spec_update P rate G =
     tabulate (nrows P) (ncols P) (\<lambda>i j. entry P i j - rate * entry G i j)"

section \<open>Concrete instances\<close>

text \<open>
  An instance with two inputs, one hidden unit and one output, ReLU activation, and a
  batch of one sample: the concrete input on which the statements below are exercised.
\<close>

definition example_mlp :: mlp where
  "example_mlp =
     \<lparr>lr = 1 / 10,
      W1 = \<lparr>ncols = 1, rows = [[1], [1]]\<rparr>, b1 = \<lparr>ncols = 1, rows = [[0]]\<rparr>,
      W2 = \<lparr>ncols = 1, rows = [[1]]\<rparr>, b2 = \<lparr>ncols = 1, rows = [[0]]\<rparr>,
      activation_fn = relu, activation_derivative = relu_derivative,
      hidden_features = None, gradients = Map.empty,
      Z1 = None, A1 = None, Z2 = None, A2 = None\<rparr>"

definition example_X :: "real ndarray" where
  "example_X = \<lparr>ncols = 2, rows = [[1, 2]]\<rparr>"

definition example_y :: "real ndarray" where
  "example_y = \<lparr>ncols = 1, rows = [[1]]\<rparr>"

text \<open>
  An instance as the constructor leaves it (zero biases, tanh) with two inputs, three
  hidden units and one output, and a batch of two samples at the origin with the labels
  0 and 1: every gradient of \<open>backward\<close> vanishes there.
\<close>

definition flat_mlp :: mlp where
  "flat_mlp =
     \<lparr>lr = 1 / 100,
      W1 = \<lparr>ncols = 3, rows = [[1 / 10, 2 / 10, 3 / 10], [4 / 10, 5 / 10, 6 / 10]]\<rparr>,
      b1 = \<lparr>ncols = 3, rows = [[0, 0, 0]]\<rparr>,
      W2 = \<lparr>ncols = 1, rows = [[1 / 10], [2 / 10], [3 / 10]]\<rparr>,
      b2 = \<lparr>ncols = 1, rows = [[0]]\<rparr>,
      activation_fn = tanh_fn, activation_derivative = tanh_derivative,
      hidden_features = None, gradients = Map.empty,
      Z1 = None, A1 = None, Z2 = None, A2 = None\<rparr>"

definition flat_X :: "real ndarray" where
  "flat_X = \<lparr>ncols = 2, rows = [[0, 0], [0, 0]]\<rparr>"

definition flat_y :: "real ndarray" where
  "flat_y = \<lparr>ncols = 1, rows = [[0], [1]]\<rparr>"




text \<open>
  A stand-in for numpy's generator, for concrete runs: its state counts the samples
  drawn so far, seeding with \<open>n\<close> sets it to \<open>n\<close>, and a draw returns the count.
\<close>

definition counting_rng :: "nat np_random" where
  "counting_rng = \<lparr>seed = \<lambda>n. n, gauss = \<lambda>g. (real g, Suc g)\<rparr>"

section \<open>Float64 arithmetic\<close>

text \<open>
  Where a statement turns on rounding, the real-valued model above says nothing about
  the program: numpy computes in IEEE 754 binary64. This section models that arithmetic.

  A float64 is a finite value, written as the real number it denotes, one of the two
  infinities, or NaN. The two zeros are identified: the sign of a zero shows only when
  it is a divisor, and the functions modelled here divide by \<open>1 + exp(-x)\<close>, which is
  at least 1, and by the batch size, whose zero is the positive one.
\<close>

datatype f64 = Fin real | PInf | NInf | NaN

text \<open>Two to the power of the integer \<open>k\<close>.\<close>

definition pow2 :: "int \<Rightarrow> real" where
  "pow2 k = 2 powr of_int k"

text \<open>The integer nearest to \<open>q\<close>, the even one of the two when \<open>q\<close> is half-way.\<close>

definition round_even :: "real \<Rightarrow> int" where
  "round_even q =
     (let f = \<lfloor>q\<rfloor> in
      if q - of_int f < 1 / 2 then f
      else if 1 / 2 < q - of_int f then f + 1
      else if even f then f else f + 1)"

text \<open>
  Rounding of a real to binary64, to nearest and ties to even. The largest finite value
  is \<open>max_f64\<close>. The exponent of \<open>x\<close> is that of its binade, and no less than
  \<open>-1022\<close> (below it the values are subnormal); neighbouring values of that binade are
  \<open>ulp x\<close> apart, the significand having 53 bits. A result that exceeds the largest finite
  value after rounding is the infinity of its sign.
\<close>

definition max_f64 :: real where
  "max_f64 = (2 - pow2 (- 52)) * pow2 1023"

definition expo :: "real \<Rightarrow> int" where
  "expo x = max \<lfloor>log 2 \<bar>x\<bar>\<rfloor> (- 1022)"

definition ulp :: "real \<Rightarrow> real" where
  "ulp x = pow2 (expo x - 52)"

definition rnd :: "real \<Rightarrow> f64" where
  "rnd x =
     (if x = 0 then Fin 0
      else let y = ulp x * of_int (round_even (x / ulp x))
           in if max_f64 < \<bar>y\<bar> then (if 0 < x then PInf else NInf) else Fin y)"

text \<open>
  The arithmetic operations: the exact result, rounded; with an infinity or NaN among
  the operands, the result IEEE 754 prescribes.
\<close>

fun fneg :: "f64 \<Rightarrow> f64" where
  "fneg (Fin a) = Fin (- a)"
| "fneg PInf = NInf"
| "fneg NInf = PInf"
| "fneg NaN = NaN"

fun fadd :: "f64 \<Rightarrow> f64 \<Rightarrow> f64" where
  "fadd (Fin a) (Fin b) = rnd (a + b)"
| "fadd NaN v = NaN"
| "fadd u NaN = NaN"
| "fadd PInf NInf = NaN"
| "fadd NInf PInf = NaN"
| "fadd (Fin a) v = v"
| "fadd u v = u"

definition fsub :: "f64 \<Rightarrow> f64 \<Rightarrow> f64" where
  "fsub u v = fadd u (fneg v)"

fun fmul :: "f64 \<Rightarrow> f64 \<Rightarrow> f64" where
  "fmul (Fin a) (Fin b) = rnd (a * b)"
| "fmul NaN v = NaN"
| "fmul u NaN = NaN"
| "fmul (Fin a) v = (if a = 0 then NaN else if 0 < a then v else fneg v)"
| "fmul u (Fin b) = (if b = 0 then NaN else if 0 < b then u else fneg u)"
| "fmul u v = (if u = v then PInf else NInf)"

fun fdiv :: "f64 \<Rightarrow> f64 \<Rightarrow> f64" where
  "fdiv (Fin a) (Fin b) =
     (if b = 0 then (if a = 0 then NaN else if 0 < a then PInf else NInf) else rnd (a / b))"
| "fdiv NaN v = NaN"
| "fdiv u NaN = NaN"
| "fdiv (Fin a) v = Fin 0"
| "fdiv u (Fin b) = (if 0 \<le> b then u else fneg u)"
| "fdiv u v = NaN"

text \<open>
  \<open>np.exp\<close> and \<open>np.tanh\<close> come from the platform's mathematical library, which need
  not round correctly: they are parameters of the model. What is asked of them is that
  they map NaN to NaN, that \<open>exp\<close> of anything else is a non-negative number or
  \<open>+\<infinity>\<close>, and that \<open>tanh\<close> of anything else is a number in \<open>[-1, 1]\<close>.
\<close>

record np_math =
  np_exp :: "f64 \<Rightarrow> f64"
  np_tanh :: "f64 \<Rightarrow> f64"

definition exp_ok :: "np_math \<Rightarrow> bool" where
  "exp_ok L \<longleftrightarrow>
     np_exp L NaN = NaN
     \<and> (\<forall>v. v \<noteq> NaN \<longrightarrow> np_exp L v = PInf \<or> (\<exists>y. np_exp L v = Fin y \<and> 0 \<le> y))"

definition tanh_ok :: "np_math \<Rightarrow> bool" where
  "tanh_ok L \<longleftrightarrow>
     np_tanh L NaN = NaN
     \<and> (\<forall>v. v \<noteq> NaN \<longrightarrow> (\<exists>y. np_tanh L v = Fin y \<and> - 1 \<le> y \<and> y \<le> 1))"

text \<open>The correctly rounded library, for concrete runs.\<close>

definition libm :: np_math where
  "libm =
     \<lparr>np_exp = (\<lambda>v. case v of Fin x \<Rightarrow> rnd (exp x) | PInf \<Rightarrow> PInf
                        | NInf \<Rightarrow> Fin 0 | NaN \<Rightarrow> NaN),
      np_tanh = (\<lambda>v. case v of Fin x \<Rightarrow> rnd (tanh x) | PInf \<Rightarrow> Fin 1
                         | NInf \<Rightarrow> Fin (- 1) | NaN \<Rightarrow> NaN)\<rparr>"

text \<open>
  The six activation functions of the source on one float64 entry. \<open>x**2\<close> is the
  product \<open>x * x\<close>; \<open>np.maximum\<close> propagates NaN; \<open>x > 0\<close> is false for NaN.
\<close>

definition tanh64 :: "np_math \<Rightarrow> f64 \<Rightarrow> f64" where
  "tanh64 L x = np_tanh L x"

definition tanh_derivative64 :: "np_math \<Rightarrow> f64 \<Rightarrow> f64" where
  "tanh_derivative64 L x = fsub (Fin 1) (fmul (np_tanh L x) (np_tanh L x))"

fun relu64 :: "f64 \<Rightarrow> f64" where
  "relu64 (Fin a) = Fin (max 0 a)"
| "relu64 PInf = PInf"
| "relu64 NInf = Fin 0"
| "relu64 NaN = NaN"

fun relu_derivative64 :: "f64 \<Rightarrow> f64" where
  "relu_derivative64 (Fin a) = (if 0 < a then Fin 1 else Fin 0)"
| "relu_derivative64 PInf = Fin 1"
| "relu_derivative64 NInf = Fin 0"
| "relu_derivative64 NaN = Fin 0"

definition sigmoid64 :: "np_math \<Rightarrow> f64 \<Rightarrow> f64" where
  "sigmoid64 L x = fdiv (Fin 1) (fadd (Fin 1) (np_exp L (fneg x)))"

definition sigmoid_derivative64 :: "np_math \<Rightarrow> f64 \<Rightarrow> f64" where
  "sigmoid_derivative64 L x = (let s = sigmoid64 L x in fmul s (fsub (Fin 1) s))"

text \<open>
  The array operations of \<open>forward\<close> and \<open>backward\<close> in float64. A dot product adds
  its products from left to right; numpy leaves the order to its BLAS, and nothing
  stated below depends on it.
\<close>

definition dot64 :: "f64 list \<Rightarrow> f64 list \<Rightarrow> f64" where
  "dot64 xs ys = foldl fadd (Fin 0) (map2 fmul xs ys)"

definition matmul64 :: "f64 ndarray \<Rightarrow> f64 ndarray \<Rightarrow> error + f64 ndarray" where
  "matmul64 A B =
     (if ncols A \<noteq> nrows B then Inl ValueError
      else Inr \<lparr>ncols = ncols B, rows = map (\<lambda>r. map (\<lambda>c. dot64 r c) (cols B)) (rows A)\<rparr>)"

definition binop64 ::
  "(f64 \<Rightarrow> f64 \<Rightarrow> f64) \<Rightarrow> f64 ndarray \<Rightarrow> f64 ndarray \<Rightarrow> error + f64 ndarray" where
  "binop64 f A B =
     (case (bdim (nrows A) (nrows B), bdim (ncols A) (ncols B)) of
        (Some r, Some c) \<Rightarrow>
          Inr \<lparr>ncols = c,
               rows = map2 (\<lambda>ra rb. map2 f (stretch c ra) (stretch c rb))
                        (stretch r (rows A)) (stretch r (rows B))\<rparr>
      | _ \<Rightarrow> Inl ValueError)"

definition add_np64 :: "f64 ndarray \<Rightarrow> f64 ndarray \<Rightarrow> error + f64 ndarray" where
  "add_np64 = binop64 fadd"

definition sub_np64 :: "f64 ndarray \<Rightarrow> f64 ndarray \<Rightarrow> error + f64 ndarray" where
  "sub_np64 = binop64 fsub"

definition mul_np64 :: "f64 ndarray \<Rightarrow> f64 ndarray \<Rightarrow> error + f64 ndarray" where
  "mul_np64 = binop64 fmul"

definition isub_np64 :: "f64 ndarray \<Rightarrow> f64 ndarray \<Rightarrow> error + f64 ndarray" where
  "isub_np64 A B =
     (case sub_np64 A B of
        Inl e \<Rightarrow> Inl e
      | Inr C \<Rightarrow> if shape C = shape A then Inr C else Inl ValueError)"

text \<open>
  The sum of each column, its entries added from the first row down; an array divided
  by the integer \<open>m\<close>, which numpy converts to a float; and a float times an array.
\<close>

definition sum_axis0_64 :: "f64 ndarray \<Rightarrow> f64 ndarray" where
  "sum_axis0_64 A = \<lparr>ncols = ncols A, rows = [map (foldl fadd (Fin 0)) (cols A)]\<rparr>"

definition div_scalar64 :: "f64 ndarray \<Rightarrow> nat \<Rightarrow> f64 ndarray" where
  "div_scalar64 A m = elementwise (\<lambda>v. fdiv v (Fin (real m))) A"

definition scale64 :: "f64 \<Rightarrow> f64 ndarray \<Rightarrow> f64 ndarray" where
  "scale64 c A = elementwise (\<lambda>v. fmul c v) A"

text \<open>
  An instance of class \<open>MLP\<close> whose attributes are float64 arrays, and \<open>MLP.forward\<close>
  and \<open>MLP.backward\<close> on it, statement by statement as in the real-valued model.
\<close>

record mlp64 =
  lr_64 :: f64
  W1_64 :: "f64 ndarray"
  b1_64 :: "f64 ndarray"
  W2_64 :: "f64 ndarray"
  b2_64 :: "f64 ndarray"
  activation_fn_64 :: "f64 \<Rightarrow> f64"
  activation_derivative_64 :: "f64 \<Rightarrow> f64"
  hidden_features_64 :: "f64 ndarray option"
  gradients_64 :: "string \<rightharpoonup> f64 ndarray"
  Z1_64 :: "f64 ndarray option"
  A1_64 :: "f64 ndarray option"
  Z2_64 :: "f64 ndarray option"
  A2_64 :: "f64 ndarray option"

definition forward64 ::
  "np_math \<Rightarrow> mlp64 \<Rightarrow> f64 ndarray \<Rightarrow> mlp64 \<times> (error + f64 ndarray)" where
  "forward64 L s X =
     (case bind_res (matmul64 X (W1_64 s)) (\<lambda>p. add_np64 p (b1_64 s)) of
        Inl e \<Rightarrow> (s, Inl e)
      | Inr z1 \<Rightarrow>
          let s1 = s\<lparr>Z1_64 := Some z1\<rparr>;
              a1 = elementwise (activation_fn_64 s1) z1;
              s2 = s1\<lparr>A1_64 := Some a1\<rparr>
          in (case bind_res (matmul64 a1 (W2_64 s2)) (\<lambda>p. add_np64 p (b2_64 s2)) of
                Inl e \<Rightarrow> (s2, Inl e)
              | Inr z2 \<Rightarrow>
                  let s3 = s2\<lparr>Z2_64 := Some z2\<rparr>;
                      a2 = elementwise (sigmoid64 L) z2;
                      s4 = s3\<lparr>A2_64 := Some a2\<rparr>;
                      s5 = s4\<lparr>hidden_features_64 := A1_64 s4\<rparr>
                  in (s5, Inr a2)))"

definition store_gradient64 :: "string \<Rightarrow> f64 ndarray \<Rightarrow> mlp64 \<Rightarrow> mlp64" where
  "store_gradient64 k v s = s\<lparr>gradients_64 := (gradients_64 s)(k \<mapsto> v)\<rparr>"

definition step_size64 :: "mlp64 \<Rightarrow> string \<Rightarrow> error + f64 ndarray" where
  "step_size64 s k = bind_res (lookup (gradients_64 s) k) (\<lambda>g. Inr (scale64 (lr_64 s) g))"

definition backward64 :: "mlp64 \<Rightarrow> f64 ndarray \<Rightarrow> f64 ndarray \<Rightarrow> mlp64 \<times> error option" where
  "backward64 s X y =
     (let m = nrows X in
      case bind_res (attr (A2_64 s)) (\<lambda>a2. sub_np64 a2 y) of
        Inl e \<Rightarrow> (s, Some e)
      | Inr dZ2 \<Rightarrow>
      (case bind_res (attr (A1_64 s)) (\<lambda>a1. matmul64 (transpose_np a1) dZ2) of
        Inl e \<Rightarrow> (s, Some e)
      | Inr q2 \<Rightarrow>
      let s1 = store_gradient64 ''W2'' (div_scalar64 q2 m) s;
          s2 = store_gradient64 ''b2'' (div_scalar64 (sum_axis0_64 dZ2) m) s1
      in
      (case matmul64 dZ2 (transpose_np (W2_64 s2)) of
        Inl e \<Rightarrow> (s2, Some e)
      | Inr dA1 \<Rightarrow>
      (case bind_res (attr (Z1_64 s2))
              (\<lambda>z1. mul_np64 dA1 (elementwise (activation_derivative_64 s2) z1)) of
        Inl e \<Rightarrow> (s2, Some e)
      | Inr dZ1 \<Rightarrow>
      (case matmul64 (transpose_np X) dZ1 of
        Inl e \<Rightarrow> (s2, Some e)
      | Inr q1 \<Rightarrow>
      let s3 = store_gradient64 ''W1'' (div_scalar64 q1 m) s2;
          s4 = store_gradient64 ''b1'' (div_scalar64 (sum_axis0_64 dZ1) m) s3
      in
      (case bind_res (step_size64 s4 ''W2'') (isub_np64 (W2_64 s4)) of
        Inl e \<Rightarrow> (s4, Some e)
      | Inr w2 \<Rightarrow>
      let s5 = s4\<lparr>W2_64 := w2\<rparr> in
      (case bind_res (step_size64 s5 ''b2'') (isub_np64 (b2_64 s5)) of
        Inl e \<Rightarrow> (s5, Some e)
      | Inr c2 \<Rightarrow>
      let s6 = s5\<lparr>b2_64 := c2\<rparr> in
      (case bind_res (step_size64 s6 ''W1'') (isub_np64 (W1_64 s6)) of
        Inl e \<Rightarrow> (s6, Some e)
      | Inr w1 \<Rightarrow>
      let s7 = s6\<lparr>W1_64 := w1\<rparr> in
      (case bind_res (step_size64 s7 ''b1'') (isub_np64 (b1_64 s7)) of
        Inl e \<Rightarrow> (s7, Some e)
      | Inr c1 \<Rightarrow> (s7\<lparr>b1_64 := c1\<rparr>, None))))))))))"

definition wf_mlp64 :: "mlp64 \<Rightarrow> nat \<Rightarrow> nat \<Rightarrow> nat \<Rightarrow> bool" where
  "wf_mlp64 s d h k \<longleftrightarrow>
     has_shape (W1_64 s) d h \<and> has_shape (b1_64 s) 1 h
     \<and> has_shape (W2_64 s) h k \<and> has_shape (b2_64 s) 1 k"

text \<open>
  The ReLU instance \<open>example_mlp\<close> in float64, and a batch of one sample whose two
  features are 20: every value of the pass is a small integer, so every sum and product
  is exact, in any order.
\<close>

definition example_mlp64 :: mlp64 where
  "example_mlp64 =
     \<lparr>lr_64 = rnd (1 / 10),
      W1_64 = \<lparr>ncols = 1, rows = [[Fin 1], [Fin 1]]\<rparr>, b1_64 = \<lparr>ncols = 1, rows = [[Fin 0]]\<rparr>,
      W2_64 = \<lparr>ncols = 1, rows = [[Fin 1]]\<rparr>, b2_64 = \<lparr>ncols = 1, rows = [[Fin 0]]\<rparr>,
      activation_fn_64 = relu64, activation_derivative_64 = relu_derivative64,
      hidden_features_64 = None, gradients_64 = Map.empty,
      Z1_64 = None, A1_64 = None, Z2_64 = None, A2_64 = None\<rparr>"

definition example_X64 :: "f64 ndarray" where
  "example_X64 = \<lparr>ncols = 2, rows = [[Fin 20, Fin 20]]\<rparr>"

text \<open>
  A ReLU instance with one input, one hidden unit and one output, output bias 100 and
  learning rate 0.01 (the float64 nearest to it), and a batch of one sample at the
  origin with label 0: the output is saturated at exactly 1.
\<close>

definition saturated_mlp64 :: mlp64 where
  "saturated_mlp64 =
     \<lparr>lr_64 = rnd (1 / 100),
      W1_64 = \<lparr>ncols = 1, rows = [[Fin 1]]\<rparr>, b1_64 = \<lparr>ncols = 1, rows = [[Fin 0]]\<rparr>,
      W2_64 = \<lparr>ncols = 1, rows = [[Fin 1]]\<rparr>, b2_64 = \<lparr>ncols = 1, rows = [[Fin 100]]\<rparr>,
      activation_fn_64 = relu64, activation_derivative_64 = relu_derivative64,
      hidden_features_64 = None, gradients_64 = Map.empty,
      Z1_64 = None, A1_64 = None, Z2_64 = None, A2_64 = None\<rparr>"

definition saturated_X64 :: "f64 ndarray" where
  "saturated_X64 = \<lparr>ncols = 1, rows = [[Fin 0]]\<rparr>"

definition saturated_y64 :: "f64 ndarray" where
  "saturated_y64 = \<lparr>ncols = 1, rows = [[Fin 0]]\<rparr>"

section \<open>Arrays, entry by entry\<close>

lemma has_shape_tabulate: "has_shape (tabulate m n f) m n"
  by (simp add: has_shape_def tabulate_def list_all_iff)

lemma entry_tabulate: "i < m \<Longrightarrow> j < n \<Longrightarrow> entry (tabulate m n f) i j = f i j"
  by (simp add: entry_def tabulate_def)

lemma has_shape_nrows: "has_shape A m n \<Longrightarrow> nrows A = m"
  by (simp add: has_shape_def nrows_def)

lemma has_shape_ncols: "has_shape A m n \<Longrightarrow> ncols A = n"
  by (simp add: has_shape_def)

lemma tabulate_entry: 
  assumes "has_shape A m n" shows "A = tabulate m n (entry A)"
proof -
  have "rows A = map (\<lambda>i. map (\<lambda>j. rows A ! i ! j) [0..<n]) [0..<m]"
    using assms by (auto simp: has_shape_def list_all_length intro!: nth_equalityI)
  then show ?thesis using assms
    by (simp add: tabulate_def entry_def has_shape_def)
qed

lemma tabulate_cong:
  "(\<And>i j. i < m \<Longrightarrow> j < n \<Longrightarrow> f i j = g i j) \<Longrightarrow> tabulate m n f = tabulate m n g"
  by (simp add: tabulate_def)

lemma dot_sum: "length xs = k \<Longrightarrow> length ys = k \<Longrightarrow> dot xs ys = (\<Sum>l<k. xs ! l * ys ! l)"
  by (simp add: dot_def sum_list_sum_nth atLeast0LessThan)

lemma matmul_tabulate:
  assumes "has_shape A m k" "has_shape B k n"
  shows "matmul A B = Inr (tabulate m n (\<lambda>i j. \<Sum>l<k. entry A i l * entry B l j))"
proof -
  have "map (\<lambda>r. map (\<lambda>c. dot r c) (cols B)) (rows A)
      = map (\<lambda>i. map (\<lambda>j. \<Sum>l<k. entry A i l * entry B l j) [0..<n]) [0..<m]"
    using assms
    by (auto simp: has_shape_def list_all_length cols_def entry_def dot_sum intro!: nth_equalityI)
  then show ?thesis using assms
    by (simp add: matmul_def tabulate_def has_shape_def nrows_def)
qed

lemma elementwise_tabulate:
  assumes "has_shape A m n"
  shows "elementwise f A = tabulate m n (\<lambda>i j. f (entry A i j))"
proof -
  have "map (map f) (rows A) = map (\<lambda>i. map (\<lambda>j. f (entry A i j)) [0..<n]) [0..<m]"
    using assms
    by (auto simp: has_shape_def list_all_length entry_def intro!: nth_equalityI)
  then show ?thesis using assms
    by (simp add: elementwise_def tabulate_def has_shape_def)
qed

lemma transpose_tabulate:
  assumes "has_shape A m n"
  shows "transpose_np A = tabulate n m (\<lambda>i j. entry A j i)"
proof -
  have "cols A = map (\<lambda>i. map (\<lambda>j. entry A j i) [0..<m]) [0..<n]"
    using assms
    by (auto simp: has_shape_def list_all_length entry_def cols_def intro!: nth_equalityI)
  then show ?thesis using assms
    by (simp add: transpose_np_def tabulate_def has_shape_def nrows_def)
qed

lemma sum_axis0_tabulate:
  assumes "has_shape A m n"
  shows "sum_axis0 A = tabulate 1 n (\<lambda>i j. \<Sum>l<m. entry A l j)"
proof -
  have "map sum_list (cols A) = map (\<lambda>j. \<Sum>l<m. entry A l j) [0..<n]"
    using assms
    by (auto simp: has_shape_def list_all_length entry_def cols_def sum_list_sum_nth atLeast0LessThan intro!: nth_equalityI)
  then show ?thesis using assms
    by (simp add: sum_axis0_def tabulate_def has_shape_def)
qed

lemma binop_same:
  assumes "has_shape A m n" "has_shape B m n"
  shows "binop f A B = Inr (tabulate m n (\<lambda>i j. f (entry A i j) (entry B i j)))"
proof -
  have "map2 (\<lambda>ra rb. map2 f (stretch n ra) (stretch n rb)) (rows A) (rows B)
      = map (\<lambda>i. map (\<lambda>j. f (entry A i j) (entry B i j)) [0..<n]) [0..<m]"
    using assms
    by (auto simp: has_shape_def list_all_length entry_def stretch_def intro!: nth_equalityI)
  then show ?thesis using assms
    by (simp add: binop_def tabulate_def has_shape_def nrows_def bdim_def stretch_def)
qed

lemma binop_row:
  assumes "has_shape A m n" "has_shape B 1 n"
  shows "binop f A B = Inr (tabulate m n (\<lambda>i j. f (entry A i j) (entry B 0 j)))"
proof (cases "m = 1")
  case True
  then show ?thesis using binop_same[of A 1 n B f] assms 
    by (simp add: tabulate_def)
next
  case False
  have B: "rows B = [hd (rows B)]" "length (hd (rows B)) = n"
    using assms(2) by (cases "rows B"; simp add: has_shape_def)+
  have "map2 (\<lambda>ra rb. map2 f (stretch n ra) (stretch n rb)) (rows A) (replicate m (hd (rows B)))
      = map (\<lambda>i. map (\<lambda>j. f (entry A i j) (entry B 0 j)) [0..<n]) [0..<m]"
    using assms(1) B
    apply (auto simp: has_shape_def list_all_length entry_def stretch_def intro!: nth_equalityI)
    by (metis nth_Cons_0)
  then show ?thesis using assms False
    by (simp add: binop_def tabulate_def has_shape_def nrows_def bdim_def stretch_def)
qed

lemma isub_same:
  assumes "has_shape A m n" "has_shape B m n"
  shows "isub_np A B = Inr (tabulate m n (\<lambda>i j. entry A i j - entry B i j))"
  using assms has_shape_tabulate[of m n "\<lambda>i j. entry A i j - entry B i j"]
  by (simp add: isub_np_def sub_np_def binop_same shape_def has_shape_nrows has_shape_ncols)

lemma affine_tabulate:
  assumes "has_shape A m k" "has_shape W k n" "has_shape b 1 n"
  shows "bind_res (matmul A W) (\<lambda>p. add_np p b)
       = Inr (tabulate m n (\<lambda>i j. (\<Sum>l<k. entry A i l * entry W l j) + entry b 0 j))"
proof -
  let ?P = "tabulate m n (\<lambda>i j. \<Sum>l<k. entry A i l * entry W l j)"
  have "add_np ?P b = Inr (tabulate m n (\<lambda>i j. entry ?P i j + entry b 0 j))"
    unfolding add_np_def by (rule binop_row[OF has_shape_tabulate assms(3)])
  also have "tabulate m n (\<lambda>i j. entry ?P i j + entry b 0 j)
           = tabulate m n (\<lambda>i j. (\<Sum>l<k. entry A i l * entry W l j) + entry b 0 j)"
    by (rule tabulate_cong) (simp add: entry_tabulate)
  finally show ?thesis
    by (simp add: bind_res_def matmul_tabulate[OF assms(1,2)])
qed

lemma forward_tabulate:
  assumes X: "has_shape X m d" and s: "wf_mlp s d h k"
  defines "z1 \<equiv> tabulate m h (\<lambda>i j. (\<Sum>l<d. entry X i l * entry (W1 s) l j) + entry (b1 s) 0 j)"
  defines "a1 \<equiv> tabulate m h (\<lambda>i j. activation_fn s (entry z1 i j))"
  defines "z2 \<equiv> tabulate m k (\<lambda>i j. (\<Sum>l<h. entry a1 i l * entry (W2 s) l j) + entry (b2 s) 0 j)"
  defines "a2 \<equiv> tabulate m k (\<lambda>i j. sigmoid (entry z2 i j))"
  shows "forward s X =
    (s\<lparr>Z1 := Some z1, A1 := Some a1, Z2 := Some z2, A2 := Some a2, hidden_features := Some a1\<rparr>,
     Inr a2)"
proof -
  have 1: "bind_res (matmul X (W1 s)) (\<lambda>p. add_np p (b1 s)) = Inr z1"
    unfolding z1_def using X s by (intro affine_tabulate) (simp_all add: wf_mlp_def)
  have 2: "elementwise (activation_fn s) z1 = a1"
    unfolding a1_def by (rule elementwise_tabulate) (simp add: z1_def has_shape_tabulate)
  have 3: "bind_res (matmul a1 (W2 s)) (\<lambda>p. add_np p (b2 s)) = Inr z2"
    unfolding z2_def using s
    by (intro affine_tabulate) (simp_all add: wf_mlp_def a1_def has_shape_tabulate)
  have 4: "elementwise sigmoid z2 = a2"
    unfolding a2_def by (rule elementwise_tabulate) (simp add: z2_def has_shape_tabulate)
  show ?thesis
    by (simp add: forward_def 1 2 3 4 Let_def)
qed

lemma nrows_tabulate [simp]: "nrows (tabulate m n f) = m"
  by (simp add: nrows_def tabulate_def)

lemma ncols_tabulate [simp]: "ncols (tabulate m n f) = n"
  by (simp add: tabulate_def)

lemma div_scalar_tabulate:
  "div_scalar (tabulate m n f) c = tabulate m n (\<lambda>i j. f i j / real c)"
  unfolding div_scalar_def
  by (simp add: elementwise_tabulate[OF has_shape_tabulate] entry_tabulate cong: tabulate_cong)

lemma scale_tabulate:
  "scale c (tabulate m n f) = tabulate m n (\<lambda>i j. c * f i j)"
  unfolding scale_def
  by (simp add: elementwise_tabulate[OF has_shape_tabulate] entry_tabulate cong: tabulate_cong)

lemma update_tabulate:
  assumes "has_shape P m n"
  shows "isub_np P (scale c (tabulate m n f)) = Inr (tabulate m n (\<lambda>i j. entry P i j - c * f i j))"
  by (simp add: scale_tabulate isub_same[OF assms has_shape_tabulate] entry_tabulate
      cong: tabulate_cong)

lemma grad_weights_tabulate:
  assumes "has_shape A m p" "has_shape D m q"
  shows "bind_res (Inr A) (\<lambda>a. matmul (transpose_np a) D)
       = Inr (tabulate p q (\<lambda>i j. \<Sum>l<m. entry A l i * entry D l j))"
proof -
  have "matmul (tabulate p m (\<lambda>i j. entry A j i)) D
      = Inr (tabulate p q (\<lambda>i j. \<Sum>l<m. entry (tabulate p m (\<lambda>i j. entry A j i)) i l * entry D l j))"
    by (rule matmul_tabulate[OF has_shape_tabulate assms(2)])
  also have "tabulate p q (\<lambda>i j. \<Sum>l<m. entry (tabulate p m (\<lambda>i j. entry A j i)) i l * entry D l j)
           = tabulate p q (\<lambda>i j. \<Sum>l<m. entry A l i * entry D l j)"
    by (rule tabulate_cong) (simp add: entry_tabulate)
  finally show ?thesis
    by (simp add: bind_res_def transpose_tabulate[OF assms(1)])
qed

lemma bind_res_simps [simp]:
  "bind_res (Inr v) f = f v" "bind_res (Inl e) f = Inl e"
  by (simp_all add: bind_res_def)

lemma attr_simps [simp]: "attr (Some a) = Inr a" "attr None = Inl AttributeError"
  by (simp_all add: attr_def)

lemma store_gradient_simps [simp]:
  "W1 (store_gradient n v s) = W1 s" "b1 (store_gradient n v s) = b1 s"
  "W2 (store_gradient n v s) = W2 s" "b2 (store_gradient n v s) = b2 s"
  "lr (store_gradient n v s) = lr s" "Z1 (store_gradient n v s) = Z1 s"
  "activation_derivative (store_gradient n v s) = activation_derivative s"
  "gradients (store_gradient n v s) = (gradients s)(n \<mapsto> v)"
  by (simp_all add: store_gradient_def)

lemma delta_back_tabulate:
  assumes D: "has_shape D m k" and W: "has_shape W h k"
  shows "matmul D (transpose_np W) = Inr (tabulate m h (\<lambda>i j. \<Sum>l<k. entry D i l * entry W j l))"
proof -
  let ?T = "tabulate k h (\<lambda>i j. entry W j i)"
  have "matmul D ?T = Inr (tabulate m h (\<lambda>i j. \<Sum>l<k. entry D i l * entry ?T l j))"
    by (rule matmul_tabulate[OF D has_shape_tabulate])
  also have "tabulate m h (\<lambda>i j. \<Sum>l<k. entry D i l * entry ?T l j)
           = tabulate m h (\<lambda>i j. \<Sum>l<k. entry D i l * entry W j l)"
    by (rule tabulate_cong) (simp add: entry_tabulate)
  finally show ?thesis
    by (simp add: transpose_tabulate[OF W])
qed

lemma delta_hidden_tabulate:
  assumes z: "has_shape z1 m h"
  shows "mul_np (tabulate m h g) (elementwise f' z1)
       = Inr (tabulate m h (\<lambda>i j. g i j * f' (entry z1 i j)))"
proof -
  let ?G = "tabulate m h g"
  let ?F = "tabulate m h (\<lambda>i j. f' (entry z1 i j))"
  have "mul_np ?G ?F = Inr (tabulate m h (\<lambda>i j. entry ?G i j * entry ?F i j))"
    unfolding mul_np_def by (rule binop_same[OF has_shape_tabulate has_shape_tabulate])
  also have "tabulate m h (\<lambda>i j. entry ?G i j * entry ?F i j)
           = tabulate m h (\<lambda>i j. g i j * f' (entry z1 i j))"
    by (rule tabulate_cong) (simp add: entry_tabulate)
  finally show ?thesis
    by (simp add: elementwise_tabulate[OF z])
qed

lemma step_size_stored:
  assumes "gradients s n = Some G" "has_shape G p q" "has_shape P p q"
  shows "bind_res (step_size s n) (isub_np P) = Inr (spec_update P (lr s) G)"
proof -
  have "isub_np P (scale (lr s) (tabulate p q (entry G)))
      = Inr (tabulate p q (\<lambda>i j. entry P i j - lr s * entry G i j))"
    by (rule update_tabulate[OF assms(3)])
  then show ?thesis
    using assms tabulate_entry[OF assms(2)]
    by (simp add: step_size_def lookup_def spec_update_def
        has_shape_nrows has_shape_ncols)
qed

lemma backward_tabulate:
  assumes X: "has_shape X m d" and y: "has_shape y m k" and s: "wf_mlp s d h k"
    and c: "Z1 s = Some z1" "A1 s = Some a1" "A2 s = Some a2"
    and cs: "has_shape z1 m h" "has_shape a1 m h" "has_shape a2 m k"
  defines "dZ2 \<equiv> spec_delta_out a2 y"
  defines "gW2 \<equiv> spec_grad_weights a1 dZ2 m"
  defines "gb2 \<equiv> spec_grad_bias dZ2 m"
  defines "dZ1 \<equiv> spec_delta_hidden dZ2 (W2 s) (activation_derivative s) z1"
  defines "gW1 \<equiv> spec_grad_weights X dZ1 m"
  defines "gb1 \<equiv> spec_grad_bias dZ1 m"
  shows "backward s X y =
    (s\<lparr>gradients := (gradients s)(''W2'' \<mapsto> gW2, ''b2'' \<mapsto> gb2, ''W1'' \<mapsto> gW1, ''b1'' \<mapsto> gb1),
       W2 := spec_update (W2 s) (lr s) gW2, b2 := spec_update (b2 s) (lr s) gb2,
       W1 := spec_update (W1 s) (lr s) gW1, b1 := spec_update (b1 s) (lr s) gb1\<rparr>, None)"
proof -
  have sh: "has_shape (W1 s) d h" "has_shape (b1 s) 1 h" "has_shape (W2 s) h k" "has_shape (b2 s) 1 k"
    using s by (simp_all add: wf_mlp_def)
  have dZ2: "dZ2 = tabulate m k (\<lambda>i j. entry a2 i j - entry y i j)" "has_shape dZ2 m k"
    using cs(3) by (simp_all add: dZ2_def spec_delta_out_def has_shape_nrows has_shape_ncols has_shape_tabulate)
  have dZ1: "dZ1 = tabulate m h (\<lambda>i j. (\<Sum>l<k. entry dZ2 i l * entry (W2 s) j l) * activation_derivative s (entry z1 i j))"
     "has_shape dZ1 m h"
    using cs(1) dZ2(2) by (simp_all add: dZ1_def spec_delta_hidden_def has_shape_nrows has_shape_ncols has_shape_tabulate)
  have 1: "sub_np a2 y = Inr dZ2"
    by (simp add: sub_np_def binop_same[OF cs(3) y] dZ2(1))
  have 2: "matmul (transpose_np a1) dZ2
         = Inr (tabulate h k (\<lambda>i j. \<Sum>l<m. entry a1 l i * entry dZ2 l j))"
    using grad_weights_tabulate[OF cs(2) dZ2(2)] by simp
  have gW2: "div_scalar (tabulate h k (\<lambda>i j. \<Sum>l<m. entry a1 l i * entry dZ2 l j)) m = gW2"
    using cs(2) dZ2(2) by (simp add: div_scalar_tabulate gW2_def spec_grad_weights_def has_shape_ncols)
  have gb2: "div_scalar (sum_axis0 dZ2) m = gb2"
    using dZ2(2) by (simp add: sum_axis0_tabulate[OF dZ2(2)] div_scalar_tabulate gb2_def spec_grad_bias_def has_shape_ncols)
  have 3: "matmul dZ2 (transpose_np (W2 s))
         = Inr (tabulate m h (\<lambda>i j. \<Sum>l<k. entry dZ2 i l * entry (W2 s) j l))"
    by (rule delta_back_tabulate[OF dZ2(2) sh(3)])
  have m3: "mul_np (tabulate m h (\<lambda>i j. \<Sum>l<k. entry dZ2 i l * entry (W2 s) j l))
              (elementwise (activation_derivative s) z1) = Inr dZ1"
    by (simp add: delta_hidden_tabulate[OF cs(1)] dZ1(1))
  have 4: "matmul (transpose_np X) dZ1 = Inr (tabulate d h (\<lambda>i j. \<Sum>l<m. entry X l i * entry dZ1 l j))"
    using grad_weights_tabulate[OF X dZ1(2)] by simp
  have gW1: "div_scalar (tabulate d h (\<lambda>i j. \<Sum>l<m. entry X l i * entry dZ1 l j)) m = gW1"
    using X dZ1(2) by (simp add: div_scalar_tabulate gW1_def spec_grad_weights_def has_shape_ncols)
  have gb1: "div_scalar (sum_axis0 dZ1) m = gb1"
    using dZ1(2) by (simp add: sum_axis0_tabulate[OF dZ1(2)] div_scalar_tabulate gb1_def spec_grad_bias_def has_shape_ncols)
  have g: "has_shape gW2 h k" "has_shape gb2 1 k" "has_shape gW1 d h" "has_shape gb1 1 h"
    using cs(2) dZ2(2) dZ1(2) X
    by (simp_all add: gW2_def gb2_def gW1_def gb1_def spec_grad_weights_def spec_grad_bias_def
        has_shape_ncols has_shape_tabulate)
  let ?G = "(gradients s)(''W2'' \<mapsto> gW2, ''b2'' \<mapsto> gb2, ''W1'' \<mapsto> gW1, ''b1'' \<mapsto> gb1)"
  let ?s4 = "s\<lparr>gradients := ?G\<rparr>"
  have s4: "store_gradient ''b1'' gb1 (store_gradient ''W1'' gW1
             (store_gradient ''b2'' gb2 (store_gradient ''W2'' gW2 s))) = ?s4"
    by (simp add: store_gradient_def)
  have u1: "bind_res (step_size ?s4 ''W2'') (isub_np (W2 s)) = Inr (spec_update (W2 s) (lr s) gW2)"
    using step_size_stored[of ?s4 "''W2''" gW2 h k "W2 s"] g sh by simp
  have u2: "bind_res (step_size (?s4\<lparr>W2 := w2\<rparr>) ''b2'') (isub_np (b2 s))
          = Inr (spec_update (b2 s) (lr s) gb2)" for w2
    using step_size_stored[of "?s4\<lparr>W2 := w2\<rparr>" "''b2''" gb2 1 k "b2 s"] g sh by simp
  have u3: "bind_res (step_size (?s4\<lparr>W2 := w2, b2 := c2\<rparr>) ''W1'') (isub_np (W1 s))
          = Inr (spec_update (W1 s) (lr s) gW1)" for w2 c2
    using step_size_stored[of "?s4\<lparr>W2 := w2, b2 := c2\<rparr>" "''W1''" gW1 d h "W1 s"] g sh by simp
  have u4: "bind_res (step_size (?s4\<lparr>W2 := w2, b2 := c2, W1 := w1\<rparr>) ''b1'') (isub_np (b1 s))
          = Inr (spec_update (b1 s) (lr s) gb1)" for w2 c2 w1
    using step_size_stored[of "?s4\<lparr>W2 := w2, b2 := c2, W1 := w1\<rparr>" "''b1''" gb1 1 h "b1 s"] g sh by simp
  have nX: "nrows X = m" using X by (rule has_shape_nrows)
  show ?thesis
    unfolding backward_def Let_def nX
    by (simp add: c 1 2 gW2 gb2 3 m3 4 gW1 gb1 s4 u1 u2 u3 u4)
qed

section \<open>The activation library\<close>

lemma sigmoid_pos: "0 < sigmoid x"
  by (simp add: sigmoid_def add_pos_pos)

lemma sigmoid_less_one: "sigmoid x < 1"
  by (simp add: sigmoid_def add_pos_pos)

lemma pow2_pos [simp]: "0 < pow2 k"
  by (simp add: pow2_def)

lemma pow2_0 [simp]: "pow2 0 = 1"
  by (simp add: pow2_def)

lemma pow2_add: "pow2 (a + b) = pow2 a * pow2 b"
  by (simp add: pow2_def powr_add)

lemma pow2_diff: "pow2 (a - b) = pow2 a / pow2 b"
  by (simp add: pow2_def powr_diff)

lemma pow2_mono: "a \<le> b \<Longrightarrow> pow2 a \<le> pow2 b"
  by (simp add: pow2_def)

lemma pow2_strict_mono: "a < b \<Longrightarrow> pow2 a < pow2 b"
  by (simp add: pow2_def)

lemma pow2_nat: "0 \<le> k \<Longrightarrow> pow2 k = of_int (2 ^ nat k)"
  by (simp add: pow2_def powr_real_of_int)

lemma pow2_neg: "pow2 (- k) = 1 / pow2 k"
  by (simp add: pow2_def powr_minus field_simps)

lemma floor_log_bounds:
  assumes "0 < x"
  shows "pow2 \<lfloor>log 2 x\<rfloor> \<le> x" "x < pow2 (\<lfloor>log 2 x\<rfloor> + 1)"
proof -
  have x: "2 powr log 2 x = x"
    using assms by simp
  have "of_int \<lfloor>log 2 x\<rfloor> \<le> log 2 x" by simp
  then have "2 powr of_int \<lfloor>log 2 x\<rfloor> \<le> 2 powr log 2 x"
    by (rule powr_mono) simp
  then show "pow2 \<lfloor>log 2 x\<rfloor> \<le> x"
    unfolding pow2_def x .
  have "log 2 x < of_int (\<lfloor>log 2 x\<rfloor> + 1)" by linarith
  then have "2 powr log 2 x < 2 powr of_int (\<lfloor>log 2 x\<rfloor> + 1)"
    by (rule powr_less_mono) simp
  then show "x < pow2 (\<lfloor>log 2 x\<rfloor> + 1)"
    unfolding pow2_def x .
qed

lemma floor_log_ge: "0 < x \<Longrightarrow> pow2 j \<le> x \<Longrightarrow> j \<le> \<lfloor>log 2 x\<rfloor>"
  by (simp add: pow2_def le_floor_iff le_log_iff)

lemma floor_log_le: "0 < x \<Longrightarrow> x \<le> pow2 j \<Longrightarrow> \<lfloor>log 2 x\<rfloor> \<le> j"
proof -
  assume "0 < x" "x \<le> pow2 j"
  then have "log 2 x \<le> of_int j"
    by (simp add: pow2_def log_le_iff)
  then show ?thesis
    by (simp add: floor_le_iff)
qed

lemma round_even_cases: "round_even q = \<lfloor>q\<rfloor> \<or> round_even q = \<lfloor>q\<rfloor> + 1"
  by (simp add: round_even_def Let_def)

lemma round_even_int [simp]: "round_even (of_int i) = i"
  by (simp add: round_even_def Let_def)

lemma round_even_le: "q \<le> of_int N \<Longrightarrow> round_even q \<le> N"
proof -
  assume q: "q \<le> of_int N"
  show ?thesis
  proof (cases "q = of_int \<lfloor>q\<rfloor>")
    case True
    then have "round_even q = \<lfloor>q\<rfloor>"
      by (metis round_even_int)
    then show ?thesis using q by (simp add: floor_le_iff)
  next
    case False
    moreover have "of_int \<lfloor>q\<rfloor> \<le> q" by (rule of_int_floor_le)
    ultimately have "of_int \<lfloor>q\<rfloor> < q" by linarith
    then have "of_int \<lfloor>q\<rfloor> < (of_int N :: real)" using q by linarith
    then have "\<lfloor>q\<rfloor> < N" by simp
    then show ?thesis using round_even_cases[of q] by linarith
  qed
qed

lemma round_even_ge: "of_int N \<le> q \<Longrightarrow> N \<le> round_even q"
proof -
  assume "of_int N \<le> q"
  then have "N \<le> \<lfloor>q\<rfloor>" by (simp add: le_floor_iff)
  then show ?thesis using round_even_cases[of q] by linarith
qed

lemma round_even_error: "\<bar>of_int (round_even q) - q\<bar> \<le> 1 / 2"
proof -
  have "of_int \<lfloor>q\<rfloor> \<le> q" "q < of_int \<lfloor>q\<rfloor> + 1" by linarith+
  then show ?thesis
    by (auto simp: round_even_def Let_def abs_le_iff)
qed

lemma round_even_below_half:
  "of_int N \<le> q \<Longrightarrow> q < of_int N + 1 / 2 \<Longrightarrow> round_even q = N"
proof -
  assume a: "of_int N \<le> q" "q < of_int N + 1 / 2"
  then have "\<lfloor>q\<rfloor> = N" by (simp add: floor_eq_iff)
  then show ?thesis using a by (simp add: round_even_def Let_def)
qed

lemma pow2_nonneg [simp]: "0 \<le> pow2 k"
  using pow2_pos[of k] by linarith

lemma pow2_ne0 [simp]: "pow2 k \<noteq> 0"
  using pow2_pos[of k] by linarith

lemma abs_pow2 [simp]: "\<bar>pow2 k\<bar> = pow2 k"
  by simp

lemma expo_ge: "- 1022 \<le> expo x"
  by (simp add: expo_def)

lemma ulp_pos [simp]: "0 < ulp x"
  by (simp add: ulp_def)

lemma ulp_nonneg [simp]: "0 \<le> ulp x"
  by (simp add: ulp_def)

lemma ulp_ne0 [simp]: "ulp x \<noteq> 0"
  by (simp add: ulp_def)

lemma expo_upper: "x \<noteq> 0 \<Longrightarrow> \<bar>x\<bar> < pow2 (expo x + 1)"
proof -
  assume "x \<noteq> 0"
  then have "\<bar>x\<bar> < pow2 (\<lfloor>log 2 \<bar>x\<bar>\<rfloor> + 1)"
    by (intro floor_log_bounds) simp
  also have "\<dots> \<le> pow2 (expo x + 1)"
    by (rule pow2_mono) (simp add: expo_def)
  finally show ?thesis .
qed

lemma expo_le: "x \<noteq> 0 \<Longrightarrow> \<bar>x\<bar> \<le> pow2 j \<Longrightarrow> - 1022 \<le> j \<Longrightarrow> expo x \<le> j"
  using floor_log_le[of "\<bar>x\<bar>" j] by (simp add: expo_def)

lemma expo_unclipped:
  assumes "x \<noteq> 0" "pow2 j \<le> \<bar>x\<bar>" "- 1022 \<le> j"
  shows "j \<le> expo x" "pow2 (expo x) \<le> \<bar>x\<bar>"
proof -
  have j: "j \<le> \<lfloor>log 2 \<bar>x\<bar>\<rfloor>"
    using assms by (intro floor_log_ge) simp_all
  then have e: "expo x = \<lfloor>log 2 \<bar>x\<bar>\<rfloor>"
    using assms by (simp add: expo_def)
  show "j \<le> expo x" using j e by simp
  show "pow2 (expo x) \<le> \<bar>x\<bar>"
    unfolding e using assms by (intro floor_log_bounds) simp
qed

lemma pow2_le_max: "j \<le> 1023 \<Longrightarrow> pow2 j \<le> max_f64"
proof -
  assume "j \<le> 1023"
  then have "pow2 j \<le> pow2 1023" by (rule pow2_mono)
  moreover have "pow2 (- 52) \<le> pow2 0" by (rule pow2_mono) simp
  then have "1 * pow2 1023 \<le> (2 - pow2 (- 52)) * pow2 1023"
    by (intro mult_right_mono) simp_all
  ultimately show ?thesis unfolding max_f64_def by linarith
qed

lemma rnd_bracket:
  assumes x: "x \<noteq> 0" and le: "\<bar>x\<bar> \<le> pow2 j" and j: "- 1022 \<le> j" "j \<le> 1023"
  shows "\<exists>y. rnd x = Fin y \<and> \<bar>y\<bar> \<le> pow2 j \<and> (0 \<le> x \<longrightarrow> 0 \<le> y) \<and> (x \<le> 0 \<longrightarrow> y \<le> 0)"
proof -
  define u where "u = ulp x"
  define n where "n = round_even (x / u)"
  define N :: int where "N = 2 ^ nat (j - expo x + 52)"
  have u: "0 < u" by (simp add: u_def)
  have e: "expo x \<le> j" using x le j by (intro expo_le)
  have "pow2 (j - expo x + 52) = of_int N"
    unfolding N_def using e by (intro pow2_nat) simp
  moreover have "pow2 (j - expo x + 52) * u = pow2 j"
    unfolding u_def ulp_def pow2_add[symmetric] by simp
  ultimately have N: "of_int N * u = pow2 j" by simp
  have "\<bar>x\<bar> / u \<le> pow2 j / u"
    using le u by (simp add: divide_right_mono)
  also have "pow2 j / u = of_int N"
    using N u by (simp add: field_simps)
  finally have q: "\<bar>x / u\<bar> \<le> of_int N" using u by simp
  have "round_even (x / u) \<le> N"
    using q by (intro round_even_le) linarith
  moreover have "of_int (- N) \<le> x / u"
    using q by (simp only: of_int_minus abs_le_iff) linarith
  then have "- N \<le> round_even (x / u)"
    by (rule round_even_ge)
  ultimately have n: "\<bar>n\<bar> \<le> N" by (simp add: n_def)
  then have "\<bar>of_int n :: real\<bar> \<le> of_int N"
    by (metis of_int_abs of_int_le_iff)
  then have "u * \<bar>of_int n\<bar> \<le> u * of_int N"
    using u by (intro mult_left_mono) simp_all
  moreover have "\<bar>u * of_int n\<bar> = u * \<bar>of_int n\<bar>"
    using u by (simp add: abs_mult)
  moreover have "u * of_int N = pow2 j"
    using N by (simp add: mult.commute)
  ultimately have y: "\<bar>u * of_int n\<bar> \<le> pow2 j"
    by linarith
  have "pow2 j \<le> max_f64" using j by (intro pow2_le_max)
  then have r: "rnd x = Fin (u * of_int n)"
    using x y by (simp add: rnd_def Let_def u_def n_def)
  have "0 \<le> x \<Longrightarrow> 0 \<le> n"
    unfolding n_def using u by (intro round_even_ge) simp
  moreover have "x \<le> 0 \<Longrightarrow> n \<le> 0"
    unfolding n_def using u by (intro round_even_le) (simp add: divide_le_0_iff)
  ultimately have "(0 \<le> x \<longrightarrow> 0 \<le> u * of_int n) \<and> (x \<le> 0 \<longrightarrow> u * of_int n \<le> 0)"
    using u by (simp add: zero_le_mult_iff mult_le_0_iff)
  then show ?thesis using r y by blast
qed

lemma rnd_lower:
  assumes le: "pow2 j \<le> x" and j: "- 1022 \<le> j"
  shows "rnd x = PInf \<or> (\<exists>y. rnd x = Fin y \<and> pow2 j \<le> y)"
proof -
  define u where "u = ulp x"
  define n where "n = round_even (x / u)"
  have x: "0 < x" using le pow2_pos[of j] by linarith
  have u: "0 < u" by (simp add: u_def)
  have e: "j \<le> expo x" "pow2 (expo x) \<le> \<bar>x\<bar>"
    using x le j by (intro expo_unclipped; simp)+
  have "pow2 52 * u = pow2 (expo x)"
    unfolding u_def ulp_def pow2_add[symmetric] by simp
  moreover have "pow2 52 = of_int (2 ^ 52)"
    using pow2_nat[of 52] by simp
  ultimately have N: "of_int (2 ^ 52) * u = pow2 (expo x)" by simp
  have "pow2 (expo x) / u \<le> x / u"
    using e x u by (simp add: divide_right_mono)
  moreover have "pow2 (expo x) / u = of_int (2 ^ 52)"
    using N u by (simp add: field_simps)
  ultimately have "of_int (2 ^ 52) \<le> x / u" by simp
  then have "2 ^ 52 \<le> n"
    unfolding n_def by (rule round_even_ge)
  then have "(of_int (2 ^ 52) :: real) \<le> of_int n"
    by (metis of_int_le_iff)
  then have "u * of_int (2 ^ 52) \<le> u * of_int n"
    using u by (intro mult_left_mono) simp_all
  then have "pow2 (expo x) \<le> u * of_int n"
    using N by (simp add: mult.commute)
  moreover have "pow2 j \<le> pow2 (expo x)" using e by (intro pow2_mono)
  ultimately have y: "pow2 j \<le> u * of_int n" by linarith
  show ?thesis
    using x y by (simp add: rnd_def Let_def u_def n_def)
qed

lemma rnd_nonneg:
  assumes "0 \<le> x"
  shows "rnd x = PInf \<or> (\<exists>y. rnd x = Fin y \<and> 0 \<le> y)"
proof (cases "x = 0")
  case True
  then show ?thesis by (simp add: rnd_def)
next
  case False
  have "0 \<le> round_even (x / ulp x)"
    using assms by (intro round_even_ge) simp
  then have "0 \<le> ulp x * of_int (round_even (x / ulp x))"
    by (simp add: zero_le_mult_iff)
  then show ?thesis
    using False assms by (simp add: rnd_def Let_def)
qed

lemma rnd_exact:
  assumes "x \<noteq> 0" "x / ulp x = of_int i" "\<bar>x\<bar> \<le> max_f64"
  shows "rnd x = Fin x"
proof -
  have "ulp x * of_int (round_even (x / ulp x)) = ulp x * (x / ulp x)"
    unfolding assms(2) by simp
  also have "\<dots> = x" by simp
  finally show ?thesis using assms by (simp add: rnd_def Let_def)
qed

lemma rnd_grid:
  "x \<noteq> 0 \<Longrightarrow> rnd x = Fin y \<Longrightarrow> y = ulp x * of_int (round_even (x / ulp x))"
  by (simp add: rnd_def Let_def split: if_splits)

lemma rnd_error:
  assumes "x \<noteq> 0" "rnd x = Fin y"
  shows "\<bar>y - x\<bar> \<le> ulp x / 2"
proof -
  have y: "y = ulp x * of_int (round_even (x / ulp x))"
    using assms by (rule rnd_grid)
  have "y - x = ulp x * (of_int (round_even (x / ulp x)) - x / ulp x)"
    unfolding y by (simp add: algebra_simps)
  then have "\<bar>y - x\<bar> = ulp x * \<bar>of_int (round_even (x / ulp x)) - x / ulp x\<bar>"
    by (simp add: abs_mult)
  also have "\<dots> \<le> ulp x * (1 / 2)"
    by (intro mult_left_mono round_even_error) simp
  finally show ?thesis by simp
qed

lemma expo_pow2: "- 1022 \<le> j \<Longrightarrow> expo (pow2 j) = j"
proof -
  assume j: "- 1022 \<le> j"
  have "log 2 (pow2 j) = of_int j" by (simp add: pow2_def)
  then show ?thesis using j by (simp add: expo_def)
qed

lemma rnd_pow2:
  assumes "- 1022 \<le> j" "j \<le> 1023"
  shows "rnd (pow2 j) = Fin (pow2 j)"
proof (rule rnd_exact)
  show "pow2 j \<noteq> 0" using pow2_pos[of j] by linarith
  have "pow2 j / ulp (pow2 j) = pow2 52"
    using assms by (simp add: ulp_def expo_pow2 pow2_diff)
  then show "pow2 j / ulp (pow2 j) = of_int (2 ^ 52)"
    using pow2_nat[of 52] by simp
  show "\<bar>pow2 j\<bar> \<le> max_f64" using assms pow2_le_max[of j] by simp
qed

lemma rnd_1: "rnd 1 = Fin 1"
  using rnd_pow2[of 0] by simp

lemma rnd_0 [simp]: "rnd 0 = Fin 0"
  by (simp add: rnd_def)

lemma pow2_m1: "pow2 (- 1) = 1 / 2"
  by (simp add: pow2_def)

lemma pow2_m2: "pow2 (- 2) = 1 / 4"
  using pow2_neg[of 2] pow2_nat[of 2] by simp

lemma expo_less:
  assumes "x \<noteq> 0" "\<bar>x\<bar> < pow2 j" "- 1022 < j"
  shows "expo x < j"
proof -
  have "pow2 \<lfloor>log 2 \<bar>x\<bar>\<rfloor> \<le> \<bar>x\<bar>"
    using assms by (intro floor_log_bounds) simp
  then have "pow2 \<lfloor>log 2 \<bar>x\<bar>\<rfloor> < pow2 j" using assms by linarith
  then have "\<lfloor>log 2 \<bar>x\<bar>\<rfloor> < j"
    using pow2_mono[of j "\<lfloor>log 2 \<bar>x\<bar>\<rfloor>"] by (cases "\<lfloor>log 2 \<bar>x\<bar>\<rfloor> < j") auto
  then show ?thesis using assms by (simp add: expo_def)
qed

lemma round_even_half_even:
  "of_int N \<le> q \<Longrightarrow> q \<le> of_int N + 1 / 2 \<Longrightarrow> even N \<Longrightarrow> round_even q = N"
proof -
  assume a: "of_int N \<le> q" "q \<le> of_int N + 1 / 2" "even N"
  then have "\<lfloor>q\<rfloor> = N" by (simp add: floor_eq_iff)
  then show ?thesis using a by (simp add: round_even_def Let_def)
qed

lemma rnd_unit:
  assumes "0 \<le> t" "t \<le> 1"
  shows "\<exists>p. rnd t = Fin p \<and> 0 \<le> p \<and> p \<le> 1"
proof (cases "t = 0")
  case True
  then show ?thesis by simp
next
  case False
  then show ?thesis
    using rnd_bracket[of t 0] assms by auto
qed

lemma rnd_quarter:
  assumes t: "0 \<le> t" "t \<le> 1 / 4 + pow2 (- 55)"
  shows "\<exists>p. rnd t = Fin p \<and> 0 \<le> p \<and> p \<le> 1 / 4"
proof -
  consider "t = 0" | "t \<noteq> 0" "t \<le> 1 / 4" | "1 / 4 < t" by linarith
  then show ?thesis
  proof cases
    case 1
    then show ?thesis by simp
  next
    case 2
    then show ?thesis
      using rnd_bracket[of t "- 2"] t by (auto simp: pow2_m2)
  next
    case 3
    have t0: "t \<noteq> 0" using 3 by simp
    have "pow2 (- 55) < pow2 (- 2)" by (rule pow2_strict_mono) simp
    then have lt: "t < pow2 (- 1)"
      using t by (simp add: pow2_m1 pow2_m2)
    have "- 2 \<le> expo t"
      using 3 t0 by (intro expo_unclipped) (simp_all add: pow2_m2)
    moreover have "expo t < - 1"
      using t0 lt t by (intro expo_less) simp_all
    ultimately have e: "expo t = - 2" by simp
    have u: "ulp t = pow2 (- 54)" by (simp add: ulp_def e)
    have m: "pow2 (- 54) * of_int (2 ^ 52) = 1 / 4"
      using pow2_nat[of 52] pow2_add[of "- 54" 52] by (simp add: pow2_m2)
    have h: "pow2 (- 54) * (1 / 2) = pow2 (- 55)"
      using pow2_add[of "- 54" "- 1"] by (simp add: pow2_m1)
    have "pow2 (- 54) * of_int (2 ^ 52) \<le> t"
      using 3 m by simp
    then have lo: "of_int (2 ^ 52) \<le> t / pow2 (- 54)"
      by (simp add: field_simps)
    have "t \<le> pow2 (- 54) * (of_int (2 ^ 52) + 1 / 2)"
      using t m h by (simp only: distrib_left)
    then have hi: "t / pow2 (- 54) \<le> of_int (2 ^ 52) + 1 / 2"
      by (simp add: field_simps)
    have n: "round_even (t / pow2 (- 54)) = 2 ^ 52"
      using lo hi by (rule round_even_half_even) simp
    have q: "(1 :: real) / 4 \<le> max_f64"
      using pow2_le_max[of "- 2"] by (simp add: pow2_m2)
    have "rnd t = Fin (1 / 4)"
      using t0 q m by (simp add: rnd_def Let_def u n)
    then show ?thesis by (intro exI[of _ "1 / 4"]) simp
  qed
qed

lemma rnd_sub_exact:
  assumes q: "0 < q" "q \<le> 1" and s: "rnd q = Fin s" and h: "1 / 2 \<le> s"
  shows "rnd (1 - s) = Fin (1 - s)"
proof (cases "q = 1")
  case True
  then show ?thesis using s by (simp add: rnd_1)
next
  case False
  have q0: "q \<noteq> 0" using q by simp
  have ql: "\<bar>q\<bar> < pow2 0" using q False by simp
  have e: "expo q < 0" using q0 ql by (rule expo_less) simp
  define n where "n = round_even (q / ulp q)"
  have sn: "s = ulp q * of_int n"
    unfolding n_def using q0 s by (rule rnd_grid)
  have "\<bar>q\<bar> < pow2 (expo q + 1)" using q0 by (rule expo_upper)
  then have "q / ulp q \<le> pow2 (expo q + 1) / ulp q"
    using q by (intro divide_right_mono) simp_all
  also have "pow2 (expo q + 1) / ulp q = pow2 53"
    unfolding ulp_def pow2_diff[symmetric] by simp
  also have "pow2 53 = of_int (2 ^ 53)" using pow2_nat[of 53] by simp
  finally have n53: "n \<le> 2 ^ 53" unfolding n_def by (rule round_even_le)
  show ?thesis
  proof (cases "expo q = - 1")
    case True
    have u: "ulp q = pow2 (- 53)" by (simp add: ulp_def True)
    have one: "pow2 (- 53) * of_int (2 ^ 53) = 1"
      using pow2_nat[of 53] pow2_add[of "- 53" 53] by simp
    define m where "m = 2 ^ 53 - n"
    have m0: "0 \<le> m" using n53 by (simp add: m_def)
    have "1 - s = pow2 (- 53) * of_int (2 ^ 53) - pow2 (- 53) * of_int n"
      unfolding one sn u by simp
    also have "\<dots> = pow2 (- 53) * of_int m"
      unfolding m_def by (simp add: algebra_simps)
    finally have ms: "1 - s = pow2 (- 53) * of_int m" .
    show ?thesis
    proof (cases "m = 0")
      case True
      then show ?thesis using ms by simp
    next
      case False
      then have m1: "1 \<le> m" using m0 by simp
      define x where "x = 1 - s"
      have x0: "x \<noteq> 0" using ms False by (simp add: x_def)
      have xpos: "0 < x" using ms m1 by (simp add: x_def)
      have xle: "x \<le> 1 / 2" using h by (simp add: x_def)
      have "1 \<le> (of_int m :: real)" using m1 by simp
      then have "pow2 (- 53) * 1 \<le> pow2 (- 53) * of_int m"
        by (intro mult_left_mono) simp_all
      then have xlo: "pow2 (- 53) \<le> \<bar>x\<bar>" using ms xpos by (simp add: x_def)
      have ex1: "- 53 \<le> expo x"
        using x0 xlo by (intro expo_unclipped) simp_all
      have ex2: "expo x \<le> - 1"
        using x0 xle xpos by (intro expo_le) (simp_all add: pow2_m1)
      define k where "k = nat (- 1 - expo x)"
      have "pow2 (- 53) / ulp x = pow2 (- 1 - expo x)"
        unfolding ulp_def pow2_diff[symmetric] by simp
      also have "\<dots> = of_int (2 ^ k)"
        unfolding k_def using ex2 by (intro pow2_nat) simp
      finally have r: "pow2 (- 53) / ulp x = of_int (2 ^ k)" .
      have "x / ulp x = (pow2 (- 53) / ulp x) * of_int m"
        using ms by (simp add: x_def)
      also have "\<dots> = of_int (2 ^ k * m)"
        unfolding r by simp
      finally have i: "x / ulp x = of_int (2 ^ k * m)" .
      have "\<bar>x\<bar> \<le> pow2 0" using xpos xle by simp
      moreover have "pow2 0 \<le> max_f64" by (rule pow2_le_max) simp
      ultimately have "\<bar>x\<bar> \<le> max_f64" by linarith
      with x0 i have "rnd x = Fin x" by (rule rnd_exact)
      then show ?thesis by (simp add: x_def)
    qed
  next
    case False
    then have e2: "expo q + 1 \<le> - 1" using e by simp
    have "\<bar>q\<bar> \<le> pow2 (expo q + 1)"
      using expo_upper[OF q0] by simp
    moreover have "- 1022 \<le> expo q + 1" using expo_ge[of q] by simp
    moreover have "expo q + 1 \<le> 1023" using e by simp
    ultimately obtain y where y: "rnd q = Fin y" "\<bar>y\<bar> \<le> pow2 (expo q + 1)"
      using rnd_bracket[OF q0, of "expo q + 1"] by blast
    have "pow2 (expo q + 1) \<le> pow2 (- 1)" using e2 by (rule pow2_mono)
    then have "s \<le> 1 / 2" using y s by (simp add: pow2_m1)
    then have "s = 1 / 2" using h by simp
    then have "1 - s = pow2 (- 1)" by (simp add: pow2_m1)
    then show ?thesis using rnd_pow2[of "- 1"] by simp
  qed
qed

lemma sigmoid64_NaN: "exp_ok L \<Longrightarrow> sigmoid64 L NaN = NaN"
  by (simp add: sigmoid64_def exp_ok_def)

lemma sigmoid64_range:
  assumes L: "exp_ok L" and v: "v \<noteq> NaN"
  shows "\<exists>s. sigmoid64 L v = Fin s \<and> 0 \<le> s \<and> s \<le> 1
             \<and> (s = 0 \<or> (\<exists>q. 0 < q \<and> q \<le> 1 \<and> rnd q = Fin s))"
proof -
  have "fneg v \<noteq> NaN" using v by (cases v) simp_all
  then consider "np_exp L (fneg v) = PInf" | y where "np_exp L (fneg v) = Fin y" "0 \<le> y"
    using L unfolding exp_ok_def by blast
  then show ?thesis
  proof cases
    case 1
    then show ?thesis by (simp add: sigmoid64_def)
  next
    case 2
    have "pow2 0 \<le> 1 + y" using 2 by simp
    then consider "rnd (1 + y) = PInf" | w where "rnd (1 + y) = Fin w" "pow2 0 \<le> w"
      using rnd_lower[of 0 "1 + y"] by auto
    then show ?thesis
    proof cases
      case 1
      then show ?thesis using 2 by (simp add: sigmoid64_def)
    next
      case (2 w)
      then have w: "1 \<le> w" by simp
      then have q: "0 < 1 / w" "1 / w \<le> 1" by simp_all
      then obtain s where s: "rnd (1 / w) = Fin s" "0 \<le> s" "s \<le> 1"
        using rnd_unit[of "1 / w"] by auto
      have "sigmoid64 L v = Fin s"
        using \<open>np_exp L (fneg v) = Fin y\<close> 2 w s by (simp add: sigmoid64_def)
      then show ?thesis using s q by blast
    qed
  qed
qed

lemma sigmoid_derivative64_range:
  assumes L: "exp_ok L" and v: "v \<noteq> NaN"
  shows "\<exists>p. sigmoid_derivative64 L v = Fin p \<and> 0 \<le> p \<and> p \<le> 1 / 4"
proof -
  obtain s where s: "sigmoid64 L v = Fin s" "0 \<le> s" "s \<le> 1"
    and c: "s = 0 \<or> (\<exists>q. 0 < q \<and> q \<le> 1 \<and> rnd q = Fin s)"
    using sigmoid64_range[OF L v] by blast
  have d: "sigmoid_derivative64 L v = fmul (Fin s) (rnd (1 - s))"
    by (simp add: sigmoid_derivative64_def s fsub_def)
  consider "s = 0" | "s \<noteq> 0" "1 / 2 \<le> s" | "s \<noteq> 0" "s < 1 / 2" by linarith
  then show ?thesis
  proof cases
    case 1
    then show ?thesis by (simp add: d rnd_1)
  next
    case 2
    then obtain q where "0 < q" "q \<le> 1" "rnd q = Fin s" using c by blast
    then have "rnd (1 - s) = Fin (1 - s)"
      using 2 by (intro rnd_sub_exact[of q])
    then have e: "sigmoid_derivative64 L v = rnd (s * (1 - s))"
      by (simp add: d)
    have "0 \<le> (s - 1 / 2)\<^sup>2" by simp
    then have "s * (1 - s) \<le> 1 / 4"
      by (simp add: power2_eq_square algebra_simps)
    moreover have "0 \<le> s * (1 - s)" using s by simp
    ultimately show ?thesis
      unfolding e using rnd_quarter[of "s * (1 - s)"] pow2_nonneg[of "- 55"] by simp
  next
    case 3
    define t where "t = 1 - s"
    have t: "1 / 2 < t" "t < 1" "t \<noteq> 0" using 3 s by (simp_all add: t_def)
    obtain u where u: "rnd t = Fin u" "0 \<le> u" "u \<le> 1"
      using rnd_unit[of t] t by auto
    have "expo t < 0" using t by (intro expo_less) simp_all
    then have "expo t - 52 \<le> - 53" by simp
    then have "ulp t \<le> pow2 (- 53)" unfolding ulp_def by (rule pow2_mono)
    moreover have "\<bar>u - t\<bar> \<le> ulp t / 2" using t u by (intro rnd_error) simp_all
    moreover have "pow2 (- 53) / 2 = pow2 (- 54)"
      using pow2_add[of "- 53" "- 1"] by (simp add: pow2_m1)
    ultimately have "u \<le> t + pow2 (- 54)" by linarith
    then have "s * u \<le> s * (t + pow2 (- 54))"
      using s by (intro mult_left_mono) simp_all
    also have "\<dots> = s * t + s * pow2 (- 54)" by (simp add: algebra_simps)
    also have "s * pow2 (- 54) \<le> (1 / 2) * pow2 (- 54)"
      using 3 by (intro mult_right_mono) simp_all
    also have "(1 / 2) * pow2 (- 54) = pow2 (- 55)"
      using pow2_add[of "- 1" "- 54"] by (simp add: pow2_m1)
    finally have "s * u \<le> s * t + pow2 (- 55)" by simp
    moreover have "0 \<le> (s - 1 / 2)\<^sup>2" by simp
    then have "s * t \<le> 1 / 4"
      by (simp add: t_def power2_eq_square algebra_simps)
    ultimately have "s * u \<le> 1 / 4 + pow2 (- 55)" by linarith
    moreover have "0 \<le> s * u" using s u by simp
    ultimately have "\<exists>p. rnd (s * u) = Fin p \<and> 0 \<le> p \<and> p \<le> 1 / 4"
      by (intro rnd_quarter)
    then show ?thesis by (simp add: d u t_def[symmetric])
  qed
qed

lemma tanh_derivative64_range:
  assumes L: "tanh_ok L" and v: "v \<noteq> NaN"
  shows "\<exists>p. tanh_derivative64 L v = Fin p \<and> 0 \<le> p \<and> p \<le> 1"
proof -
  obtain t where t: "np_tanh L v = Fin t" "- 1 \<le> t" "t \<le> 1"
    using L v unfolding tanh_ok_def by blast
  have "\<bar>t\<bar> \<le> 1" using t by (simp add: abs_le_iff)
  then have "t\<^sup>2 \<le> 1" by (simp add: abs_square_le_1)
  then have tt: "0 \<le> t * t" "t * t \<le> 1" by (simp_all add: power2_eq_square)
  then obtain w where w: "rnd (t * t) = Fin w" "0 \<le> w" "w \<le> 1"
    using rnd_unit[of "t * t"] by auto
  then obtain p where p: "rnd (1 - w) = Fin p" "0 \<le> p" "p \<le> 1"
    using rnd_unit[of "1 - w"] by auto
  have "tanh_derivative64 L v = Fin p"
    by (simp add: tanh_derivative64_def t w fsub_def p)
  then show ?thesis using p by simp
qed

lemma exp_ok_libm: "exp_ok libm"
  unfolding exp_ok_def
proof (intro conjI allI impI)
  show "np_exp libm NaN = NaN" by (simp add: libm_def)
  fix v :: f64
  assume "v \<noteq> NaN"
  then show "np_exp libm v = PInf \<or> (\<exists>y. np_exp libm v = Fin y \<and> 0 \<le> y)"
    using rnd_nonneg[of "exp x" for x] by (cases v) (simp_all add: libm_def)
qed

lemma tanh_ok_libm: "tanh_ok libm"
  unfolding tanh_ok_def
proof (intro conjI allI impI)
  show "np_tanh libm NaN = NaN" by (simp add: libm_def)
  fix v :: f64
  assume v: "v \<noteq> NaN"
  show "\<exists>y. np_tanh libm v = Fin y \<and> - 1 \<le> y \<and> y \<le> 1"
  proof (cases v)
    case (Fin x)
    have a: "\<bar>tanh x\<bar> \<le> pow2 0"
      using tanh_real_lt_1[of x] tanh_real_gt_neg1[of x] by (simp add: abs_le_iff)
    show ?thesis
    proof (cases "tanh x = 0")
      case True
      then show ?thesis using Fin by (simp add: libm_def)
    next
      case False
      then obtain y where "rnd (tanh x) = Fin y" "\<bar>y\<bar> \<le> pow2 0"
        using rnd_bracket[of "tanh x" 0] a by auto
      then show ?thesis using Fin by (simp add: libm_def abs_le_iff)
    qed
  qed (use v in \<open>simp_all add: libm_def\<close>)
qed

lemma exp_37: "exp (- 37 :: real) \<le> pow2 (- 53)"
proof -
  define r :: real where "r = 37 / 212"
  have q: "1 + r + r\<^sup>2 / 2 \<le> exp r"
    by (rule exp_lower_Taylor_quadratic) (simp add: r_def)
  have "(2 :: real) \<le> (1 + r + r\<^sup>2 / 2) ^ 4"
    by (simp add: r_def power2_eq_square power4_eq_xxxx)
  also have "\<dots> \<le> exp r ^ 4"
    using q by (intro power_mono) (simp_all add: r_def)
  finally have "(2 :: real) ^ 53 \<le> (exp r ^ 4) ^ 53"
    by (intro power_mono) simp_all
  also have "\<dots> = exp r ^ 212"
    by (simp only: power_mult[symmetric]) simp
  also have "\<dots> = exp (real 212 * r)"
    by (rule exp_of_nat_mult[symmetric])
  also have "real 212 * r = 37" by (simp add: r_def)
  finally have "(2 :: real) ^ 53 \<le> exp 37" .
  then have a: "1 / exp 37 \<le> 1 / (2 :: real) ^ 53"
    by (intro divide_left_mono) simp_all
  have "pow2 53 = 2 ^ 53"
    using pow2_nat[of 53] by simp
  then have b: "pow2 (- 53) = 1 / 2 ^ 53"
    by (simp only: pow2_neg)
  have c: "exp (- 37 :: real) = 1 / exp 37"
    by (simp add: exp_minus divide_inverse)
  show ?thesis
    unfolding b c by (rule a)
qed

lemma rnd_one_plus:
  assumes v: "0 \<le> v" "v \<le> pow2 (- 53)"
  shows "rnd (1 + v) = Fin 1"
proof -
  define t where "t = 1 + v"
  have "pow2 (- 53) \<le> pow2 (- 1)" by (rule pow2_mono) simp
  then have t: "1 \<le> t" "t < 2" "t \<noteq> 0" using v by (simp_all add: t_def pow2_m1)
  have p1: "pow2 1 = 2" using pow2_nat[of 1] by simp
  have "0 \<le> expo t" using t by (intro expo_unclipped) simp_all
  moreover have "expo t < 1" using t by (intro expo_less) (simp_all add: p1)
  ultimately have e: "expo t = 0" by simp
  have u: "ulp t = pow2 (- 52)" by (simp add: ulp_def e)
  have m: "pow2 (- 52) * of_int (2 ^ 52) = 1"
    using pow2_nat[of 52] pow2_add[of "- 52" 52] by simp
  have h: "pow2 (- 52) * (1 / 2) = pow2 (- 53)"
    using pow2_add[of "- 52" "- 1"] by (simp add: pow2_m1)
  have "pow2 (- 52) * of_int (2 ^ 52) \<le> t"
    unfolding m using t by simp
  then have lo: "of_int (2 ^ 52) \<le> t / pow2 (- 52)"
    by (simp add: field_simps)
  have "t \<le> pow2 (- 52) * (of_int (2 ^ 52) + 1 / 2)"
    unfolding distrib_left m h using v by (simp add: t_def)
  then have hi: "t / pow2 (- 52) \<le> of_int (2 ^ 52) + 1 / 2"
    by (simp add: field_simps)
  have n: "round_even (t / pow2 (- 52)) = 2 ^ 52"
    using lo hi by (rule round_even_half_even) simp
  have q: "(1 :: real) \<le> max_f64"
    using pow2_le_max[of 0] by simp
  have "rnd t = Fin 1"
    using t q m by (simp add: rnd_def Let_def u n)
  then show ?thesis by (simp add: t_def)
qed

lemma sigmoid64_saturates:
  assumes "37 \<le> z"
  shows "sigmoid64 libm (Fin z) = Fin 1"
proof -
  have "exp (- z) \<le> exp (- 37)" using assms by simp
  then have "exp (- z) \<le> pow2 (- 53)" using exp_37 by (rule order_trans)
  then have "\<bar>exp (- z)\<bar> \<le> pow2 (- 53)" by simp
  then obtain v where v: "rnd (exp (- z)) = Fin v" "\<bar>v\<bar> \<le> pow2 (- 53)" "0 \<le> v"
    using rnd_bracket[of "exp (- z)" "- 53"] by auto
  then have "rnd (1 + v) = Fin 1" by (intro rnd_one_plus) simp_all
  then show ?thesis
    using v by (simp add: sigmoid64_def libm_def rnd_1)
qed

text \<open>
  C5, as amended. In float64, for every finite \<open>x\<close>: \<open>tanh_derivative(x)\<close> is
  \<open>1 - tanh(x)\<^sup>2\<close> in rounded arithmetic and lies in \<open>[0, 1]\<close>; \<open>relu_derivative(x)\<close> is 1
  for \<open>x > 0\<close> and 0 for \<open>x \<le> 0\<close>; \<open>sigmoid_derivative(x)\<close> is
  \<open>sigmoid(x) (1 - sigmoid(x))\<close> in rounded arithmetic and lies in the closed interval
  \<open>[0, 1/4]\<close>.
\<close>

theorem activation_derivative_values64:
  assumes "exp_ok L" and "tanh_ok L"
  shows "tanh_derivative64 L (Fin x) = fsub (Fin 1) (fmul (tanh64 L (Fin x)) (tanh64 L (Fin x)))
         \<and> (\<exists>p. tanh_derivative64 L (Fin x) = Fin p \<and> 0 \<le> p \<and> p \<le> 1)
         \<and> (0 < x \<longrightarrow> relu_derivative64 (Fin x) = Fin 1)
         \<and> (x \<le> 0 \<longrightarrow> relu_derivative64 (Fin x) = Fin 0)
         \<and> sigmoid_derivative64 L (Fin x)
             = fmul (sigmoid64 L (Fin x)) (fsub (Fin 1) (sigmoid64 L (Fin x)))
         \<and> (\<exists>p. sigmoid_derivative64 L (Fin x) = Fin p \<and> 0 \<le> p \<and> p \<le> 1 / 4)"
proof -
  have "\<exists>p. tanh_derivative64 L (Fin x) = Fin p \<and> 0 \<le> p \<and> p \<le> 1"
    using assms(2) by (rule tanh_derivative64_range) simp
  moreover have "\<exists>p. sigmoid_derivative64 L (Fin x) = Fin p \<and> 0 \<le> p \<and> p \<le> 1 / 4"
    using assms(1) by (rule sigmoid_derivative64_range) simp
  ultimately show ?thesis
    by (simp add: tanh_derivative64_def tanh64_def sigmoid_derivative64_def Let_def)
qed

theorem activation_derivative_values64_witness:
  "(\<exists>p. tanh_derivative64 libm (Fin 2) = Fin p \<and> 0 \<le> p \<and> p \<le> 1)
   \<and> relu_derivative64 (Fin 2) = Fin 1
   \<and> (\<exists>p. sigmoid_derivative64 libm (Fin 2) = Fin p \<and> 0 \<le> p \<and> p \<le> 1 / 4)"
proof -
  note w = activation_derivative_values64[OF exp_ok_libm tanh_ok_libm, of 2]
  from w have "\<exists>p. tanh_derivative64 libm (Fin 2) = Fin p \<and> 0 \<le> p \<and> p \<le> 1"
    by blast
  moreover from w
  have "\<exists>p. sigmoid_derivative64 libm (Fin 2) = Fin p \<and> 0 \<le> p \<and> p \<le> 1 / 4"
    by blast
  moreover from w have "relu_derivative64 (Fin 2) = Fin 1"
    by simp
  ultimately show ?thesis by blast
qed

text \<open>
  C5 as stated fails. At \<open>x = 37\<close> the float64 \<open>sigmoid\<close> is exactly 1, so
  \<open>sigmoid_derivative(37)\<close> is exactly 0 and not in \<open>(0, 1/4]\<close>.
\<close>

theorem sigmoid_derivative64_zero_counterexample:
  "sigmoid64 libm (Fin 37) = Fin 1 \<and> sigmoid_derivative64 libm (Fin 37) = Fin 0"
proof -
  have "sigmoid64 libm (Fin 37) = Fin 1"
    by (rule sigmoid64_saturates) simp
  then show ?thesis
    by (simp add: sigmoid_derivative64_def fsub_def)
qed

section \<open>Construction\<close>

lemma activation_fns_supported:
  "activation_fns a \<noteq> None \<longleftrightarrow> a \<in> {''tanh'', ''relu'', ''sigmoid''}"
  by (simp add: activation_fns_def)

lemma activation_derivatives_supported:
  "activation_derivatives a \<noteq> None \<longleftrightarrow> a \<in> {''tanh'', ''relu'', ''sigmoid''}"
  by (simp add: activation_derivatives_def)

lemma MLP_init_unsupported:
  assumes "a \<notin> {''tanh'', ''relu'', ''sigmoid''}"
  shows "fst (MLP_init R g d h k rate a) = Inl KeyError"
proof -
  have "activation_fns a = None"
    using assms activation_fns_supported[of a] by blast
  then show ?thesis
    by (simp add: MLP_init_def lookup_def Let_def split: prod.splits)
qed

lemma MLP_init_supported:
  assumes "a \<in> {''tanh'', ''relu'', ''sigmoid''}"
  shows "\<exists>s. fst (MLP_init R g d h k rate a) = Inr s \<and> lr s = rate
             \<and> hidden_features s = None \<and> gradients s = Map.empty
             \<and> Z1 s = None \<and> A1 s = None \<and> Z2 s = None \<and> A2 s = None"
proof -
  obtain f f' where "activation_fns a = Some f" "activation_derivatives a = Some f'"
    using assms activation_fns_supported[of a] activation_derivatives_supported[of a]
    by blast
  then show ?thesis
    by (simp add: MLP_init_def lookup_def Let_def split: prod.splits)
qed

lemma MLP_init_state:
  "snd (MLP_init R g d h k rate a) = snd (randn R h k (snd (randn R d h (seed R 0))))"
  by (simp add: MLP_init_def Let_def split: prod.splits sum.splits)

text \<open>
  C7, as amended. Constructing an MLP with an activation name outside \<open>tanh\<close>, \<open>relu\<close>,
  \<open>sigmoid\<close> raises KeyError in the constructor, after the constructor has reseeded the
  global generator with 0 and drawn the two weight matrices, and before an instance
  exists, so that no forward or backward pass can run. Constructing it with one of the
  three names returns an instance.
\<close>

theorem MLP_init_activation_lookup:
  "(a \<notin> {''tanh'', ''relu'', ''sigmoid''} \<longrightarrow>
      MLP_init R g d h k rate a
        = (Inl KeyError, snd (randn R h k (snd (randn R d h (seed R 0))))))
   \<and> (a \<in> {''tanh'', ''relu'', ''sigmoid''} \<longrightarrow>
      (\<exists>s. fst (MLP_init R g d h k rate a) = Inr s))"
  using MLP_init_unsupported[of a R g d h k rate] MLP_init_supported[of a R g d h k rate]
    MLP_init_state[of R g d h k rate a]
  by (metis prod.collapse)

theorem MLP_init_activation_lookup_witness:
  "fst (MLP_init counting_rng 5 2 3 1 (1 / 10) ''gelu'') = Inl KeyError
   \<and> (\<exists>s. fst (MLP_init counting_rng 5 2 3 1 (1 / 10) ''tanh'') = Inr s)"
  using MLP_init_activation_lookup[of "''gelu''" counting_rng 5 2 3 1 "1 / 10"]
    MLP_init_activation_lookup[of "''tanh''" counting_rng 5 2 3 1 "1 / 10"]
  by simp

text \<open>
  C7 as stated fails: the lookup is not the first thing the constructor does. With the
  counting generator in state 5, \<open>MLP(2, 3, 1, 0.1, "gelu")\<close> raises KeyError and leaves
  the generator in state 9: it has been reseeded with 0 and the \<open>2 * 3 + 3 * 1\<close> weights
  have been drawn before the name was looked up.
\<close>

theorem MLP_init_draws_first_counterexample:
  "MLP_init counting_rng 5 2 3 1 (1 / 10) ''gelu'' = (Inl KeyError, 9)"
  by (simp add: MLP_init_def counting_rng_def randn_def lookup_def activation_fns_def
      numeral_2_eq_2 numeral_3_eq_3 Let_def)

lemma backward_no_A2: "A2 s = None \<Longrightarrow> backward s X y = (s, Some AttributeError)"
  by (simp add: backward_def)

text \<open>
  C10. \<open>backward(X, y)\<close> on a freshly constructed MLP, before any \<open>forward\<close>, raises
  AttributeError (there is no \<open>A2\<close>), and the instance is left exactly as it was: no
  gradient is stored and none of the four parameters is modified.
\<close>

theorem backward_before_forward:
  assumes "a \<in> {''tanh'', ''relu'', ''sigmoid''}"
  shows "\<exists>s. fst (MLP_init R g d h k rate a) = Inr s
             \<and> backward s X y = (s, Some AttributeError)
             \<and> gradients (fst (backward s X y)) = Map.empty
             \<and> W1 (fst (backward s X y)) = W1 s \<and> b1 (fst (backward s X y)) = b1 s
             \<and> W2 (fst (backward s X y)) = W2 s \<and> b2 (fst (backward s X y)) = b2 s"
proof -
  obtain s where s: "fst (MLP_init R g d h k rate a) = Inr s" "gradients s = Map.empty"
      "A2 s = None"
    using MLP_init_supported[OF assms, of R g d h k rate] by blast
  then show ?thesis
    by (simp add: backward_no_A2)
qed

theorem backward_before_forward_witness:
  "\<exists>s. fst (MLP_init counting_rng (5::nat) 2 3 1 (1 / 10) ''relu'')
          = Inr s
       \<and> backward s \<lparr>ncols = 2, rows = [[1, 2]]\<rparr> \<lparr>ncols = 1, rows = [[1]]\<rparr>
          = (s, Some AttributeError)"
  using backward_before_forward[of "''relu''" counting_rng
      5 2 3 1 "1 / 10" "\<lparr>ncols = 2, rows = [[1, 2]]\<rparr>" "\<lparr>ncols = 1, rows = [[1]]\<rparr>"]
  by auto

section \<open>The forward pass\<close>

text \<open>
  C9. \<open>forward(X)\<close> leaves \<open>W1\<close>, \<open>b1\<close>, \<open>W2\<close>, \<open>b2\<close> and the learning rate as they are,
  whatever \<open>X\<close> is and also when it raises: the instance after the call differs from the
  one before at most in \<open>Z1\<close>, \<open>A1\<close>, \<open>Z2\<close>, \<open>A2\<close> and \<open>hidden_features\<close>.
\<close>

theorem forward_frame:
  "fst (forward s X) =
     s\<lparr>Z1 := Z1 (fst (forward s X)), A1 := A1 (fst (forward s X)),
       Z2 := Z2 (fst (forward s X)), A2 := A2 (fst (forward s X)),
       hidden_features := hidden_features (fst (forward s X))\<rparr>
   \<and> W1 (fst (forward s X)) = W1 s \<and> b1 (fst (forward s X)) = b1 s
   \<and> W2 (fst (forward s X)) = W2 s \<and> b2 (fst (forward s X)) = b2 s
   \<and> lr (fst (forward s X)) = lr s"
  by (simp add: forward_def Let_def split: sum.splits)

lemma example_shapes:
  "has_shape example_X 1 2" "has_shape example_y 1 1" "wf_mlp example_mlp 2 1 1"
  by (simp_all add: has_shape_def wf_mlp_def example_X_def example_y_def example_mlp_def)

lemma spec_apply_shape [simp]:
  "nrows (spec_apply f A) = nrows A" "ncols (spec_apply f A) = ncols A"
  "has_shape (spec_apply f A) (nrows A) (ncols A)"
  by (simp_all add: spec_apply_def has_shape_tabulate)

lemma spec_affine_shape [simp]:
  "nrows (spec_affine A W b) = nrows A" "ncols (spec_affine A W b) = ncols W"
  "has_shape (spec_affine A W b) (nrows A) (ncols W)"
  by (simp_all add: spec_affine_def has_shape_tabulate)

lemma entry_spec_apply:
  "i < nrows A \<Longrightarrow> j < ncols A \<Longrightarrow> entry (spec_apply f A) i j = f (entry A i j)"
  by (simp add: spec_apply_def entry_tabulate)

lemma forward_spec:
  assumes "has_shape X m d" "wf_mlp s d h k"
  shows "forward s X =
    (s\<lparr>Z1 := Some (spec_affine X (W1 s) (b1 s)),
       A1 := Some (spec_apply (activation_fn s) (spec_affine X (W1 s) (b1 s))),
       Z2 := Some (spec_affine (spec_apply (activation_fn s) (spec_affine X (W1 s) (b1 s)))
                (W2 s) (b2 s)),
       A2 := Some (spec_apply sigmoid
                (spec_affine (spec_apply (activation_fn s) (spec_affine X (W1 s) (b1 s)))
                   (W2 s) (b2 s))),
       hidden_features := Some (spec_apply (activation_fn s) (spec_affine X (W1 s) (b1 s)))\<rparr>,
     Inr (spec_apply sigmoid
            (spec_affine (spec_apply (activation_fn s) (spec_affine X (W1 s) (b1 s)))
               (W2 s) (b2 s))))"
proof -
  have "nrows X = m" "ncols X = d" "ncols (W1 s) = h" "ncols (W2 s) = k"
    using assms by (simp_all add: wf_mlp_def has_shape_def nrows_def)
  then show ?thesis
    using forward_tabulate[OF assms]
    by (simp add: spec_affine_def spec_apply_def)
qed

text \<open>
  C2. For a batch \<open>X\<close> of \<open>m\<close> feature vectors and an instance with parameters of the
  constructor's shapes, \<open>forward(X)\<close> computes \<open>Z1 = X W1 + b1\<close> with the bias added to
  every row, \<open>A1\<close> the activation function applied to each entry of \<open>Z1\<close>,
  \<open>Z2 = A1 W2 + b2\<close> and \<open>A2\<close> the sigmoid of each entry of \<open>Z2\<close>; it stores the four on
  the instance, over whatever was there, sets \<open>hidden_features\<close> to \<open>A1\<close>, and returns
  \<open>A2\<close>. The arrays are given entry by entry by \<open>spec_affine\<close> and \<open>spec_apply\<close>.
\<close>

theorem forward_computes:
  assumes "has_shape X m d" "wf_mlp s d h k"
  shows "let z1 = spec_affine X (W1 s) (b1 s);
             a1 = spec_apply (activation_fn s) z1;
             z2 = spec_affine a1 (W2 s) (b2 s);
             a2 = spec_apply sigmoid z2
         in forward s X =
              (s\<lparr>Z1 := Some z1, A1 := Some a1, Z2 := Some z2, A2 := Some a2,
                 hidden_features := Some a1\<rparr>, Inr a2)"
  using forward_spec[OF assms] by (simp add: Let_def)

lemma example_forward:
  "spec_affine example_X (W1 example_mlp) (b1 example_mlp) = \<lparr>ncols = 1, rows = [[3]]\<rparr>"
  by (simp add: spec_affine_def tabulate_def example_X_def example_mlp_def nrows_def entry_def
      lessThan_Suc numeral_2_eq_2)

theorem forward_computes_witness:
  "Z1 (fst (forward example_mlp example_X)) = Some \<lparr>ncols = 1, rows = [[3]]\<rparr>
   \<and> snd (forward example_mlp example_X) = Inr \<lparr>ncols = 1, rows = [[sigmoid 3]]\<rparr>"
  using forward_computes[OF example_shapes(1) example_shapes(3)]
  by (simp add: Let_def example_forward)
    (simp add: example_mlp_def spec_affine_def spec_apply_def tabulate_def nrows_def entry_def
      relu_def)

lemma length_stretch [simp]: "length (stretch n xs) = n"
  by (simp add: stretch_def)

lemma matmul64_shape:
  assumes "ncols A = nrows B"
  shows "\<exists>C. matmul64 A B = Inr C \<and> nrows C = nrows A \<and> ncols C = ncols B"
  using assms by (simp add: matmul64_def nrows_def)

lemma add_np64_shape:
  assumes "bdim (nrows A) (nrows B) = Some r" "bdim (ncols A) (ncols B) = Some c"
  shows "\<exists>C. add_np64 A B = Inr C \<and> has_shape C r c"
  using assms by (auto simp: add_np64_def binop64_def has_shape_def list_all_iff set_zip)

lemma affine64_shape:
  assumes "ncols A = nrows W" "has_shape b 1 (ncols W)"
  shows "\<exists>C. bind_res (matmul64 A W) (\<lambda>p. add_np64 p b) = Inr C
             \<and> has_shape C (nrows A) (ncols W)"
proof -
  obtain P where P: "matmul64 A W = Inr P" "nrows P = nrows A" "ncols P = ncols W"
    using matmul64_shape[OF assms(1)] by blast
  have b: "nrows b = 1" "ncols b = ncols W"
    using assms(2) by (simp_all add: has_shape_def nrows_def)
  have "bdim (nrows P) (nrows b) = Some (nrows A)" "bdim (ncols P) (ncols b) = Some (ncols W)"
    by (simp_all add: bdim_def P b)
  then show ?thesis
    using add_np64_shape[of P b "nrows A" "ncols W"] P by simp
qed

lemma forward64_returns_sigmoid:
  "snd (forward64 L s X) = Inr P \<Longrightarrow> \<exists>z. P = elementwise (sigmoid64 L) z"
  by (auto simp: forward64_def Let_def split: sum.splits)

lemma sigmoid64_unit:
  assumes "exp_ok L"
  shows "sigmoid64 L v = NaN \<or> (\<exists>p. sigmoid64 L v = Fin p \<and> 0 \<le> p \<and> p \<le> 1)"
proof (cases "v = NaN")
  case True
  then show ?thesis using assms by (simp add: sigmoid64_NaN)
next
  case False
  then show ?thesis using sigmoid64_range[OF assms False] by blast
qed

lemma elementwise_sigmoid64_range:
  assumes "exp_ok L"
  shows "\<forall>r\<in>set (rows (elementwise (sigmoid64 L) A)). \<forall>v\<in>set r.
           v = NaN \<or> (\<exists>p. v = Fin p \<and> 0 \<le> p \<and> p \<le> 1)"
  using sigmoid64_unit[OF assms] by (auto simp: elementwise_def)

lemma has_shape_elementwise: "has_shape A m n \<Longrightarrow> has_shape (elementwise f A) m n"
  by (simp add: has_shape_def elementwise_def list_all_iff)

lemma forward64_total:
  assumes X: "has_shape X m d" and s: "wf_mlp64 s d h k"
  shows "\<exists>P. snd (forward64 L s X) = Inr P \<and> has_shape P m k"
proof -
  have n: "nrows X = m" "ncols X = d" "nrows (W1_64 s) = d" "ncols (W1_64 s) = h"
    "nrows (W2_64 s) = h" "ncols (W2_64 s) = k"
    using X s by (simp_all add: wf_mlp64_def has_shape_def nrows_def)
  obtain z1 where z1: "bind_res (matmul64 X (W1_64 s)) (\<lambda>p. add_np64 p (b1_64 s)) = Inr z1"
      "has_shape z1 m h"
    using affine64_shape[of X "W1_64 s" "b1_64 s"] s n by (auto simp: wf_mlp64_def)
  define a1 where "a1 = elementwise (activation_fn_64 s) z1"
  have a1: "nrows a1 = m" "ncols a1 = h"
    using z1(2) by (simp_all add: a1_def elementwise_def has_shape_def nrows_def)
  obtain z2 where z2: "bind_res (matmul64 a1 (W2_64 s)) (\<lambda>p. add_np64 p (b2_64 s)) = Inr z2"
      "has_shape z2 m k"
    using affine64_shape[of a1 "W2_64 s" "b2_64 s"] s n a1 by (auto simp: wf_mlp64_def)
  have "snd (forward64 L s X) = Inr (elementwise (sigmoid64 L) z2)"
    by (simp add: forward64_def Let_def z1 a1_def[symmetric] z2)
  then show ?thesis using has_shape_elementwise[OF z2(2)] by blast
qed

lemma rnd_int:
  assumes n: "n \<noteq> 0" "\<bar>n\<bar> \<le> 2 ^ 52"
  shows "rnd (of_int n) = Fin (of_int n)"
proof (rule rnd_exact)
  define x :: real where "x = of_int n"
  have x0: "x \<noteq> 0" using n by (simp add: x_def)
  have p: "pow2 52 = of_int (2 ^ 52)" using pow2_nat[of 52] by simp
  have "\<bar>x\<bar> = of_int \<bar>n\<bar>" by (simp add: x_def)
  also have "\<dots> \<le> of_int (2 ^ 52)" using n(2) by (simp only: of_int_le_iff)
  finally have xl: "\<bar>x\<bar> \<le> pow2 52" by (simp add: p)
  then have e: "expo x \<le> 52" using x0 by (intro expo_le) simp_all
  define k where "k = nat (52 - expo x)"
  have "1 / ulp x = pow2 (52 - expo x)"
    unfolding ulp_def using pow2_neg[of "expo x - 52"] by simp
  also have "\<dots> = of_int (2 ^ k)"
    unfolding k_def using e by (intro pow2_nat) simp
  finally have "x / ulp x = of_int (n * 2 ^ k)"
    by (simp add: x_def divide_inverse)
  then show "of_int n / ulp (of_int n) = of_int (n * 2 ^ k)" by (simp add: x_def)
  show "(of_int n :: real) \<noteq> 0" using n by simp
  have "pow2 52 \<le> max_f64" by (rule pow2_le_max) simp
  then show "\<bar>of_int n :: real\<bar> \<le> max_f64" using xl by (simp add: x_def)
qed

lemma rnd_20: "rnd 20 = Fin 20"
  using rnd_int[of 20] by simp

lemma rnd_40: "rnd 40 = Fin 40"
  using rnd_int[of 40] by simp

lemma example64_forward:
  "snd (forward64 libm example_mlp64 example_X64) = Inr \<lparr>ncols = 1, rows = [[Fin 1]]\<rparr>"
proof -
  have s: "sigmoid64 libm (Fin 40) = Fin 1"
    by (rule sigmoid64_saturates) simp
  show ?thesis
    by (simp add: forward64_def example_mlp64_def example_X64_def matmul64_def add_np64_def binop64_def
        dot64_def cols_def nrows_def bdim_def stretch_def elementwise_def Let_def
        rnd_20 rnd_40 s)
qed

text \<open>
  C6, as amended. In float64, every entry of the array \<open>forward(X)\<close> returns is NaN or
  lies in the closed interval \<open>[0, 1]\<close>, whatever the instance and the batch; and on a
  batch of \<open>m\<close> feature vectors and an instance with parameters of the constructor's
  shapes \<open>forward\<close> does return an array, of shape \<open>(m, output_dim)\<close>.
\<close>

theorem forward64_output_range:
  assumes "exp_ok L"
  shows "(\<forall>P. snd (forward64 L s X) = Inr P \<longrightarrow>
            (\<forall>r\<in>set (rows P). \<forall>v\<in>set r. v = NaN \<or> (\<exists>p. v = Fin p \<and> 0 \<le> p \<and> p \<le> 1)))
         \<and> (has_shape X m d \<and> wf_mlp64 s d h k \<longrightarrow>
              (\<exists>P. snd (forward64 L s X) = Inr P \<and> has_shape P m k))"
proof (intro conjI allI impI)
  fix P assume "snd (forward64 L s X) = Inr P"
  then obtain z where "P = elementwise (sigmoid64 L) z"
    using forward64_returns_sigmoid by blast
  then show "\<forall>r\<in>set (rows P). \<forall>v\<in>set r. v = NaN \<or> (\<exists>p. v = Fin p \<and> 0 \<le> p \<and> p \<le> 1)"
    using elementwise_sigmoid64_range[OF assms] by simp
next
  assume "has_shape X m d \<and> wf_mlp64 s d h k"
  then show "\<exists>P. snd (forward64 L s X) = Inr P \<and> has_shape P m k"
    using forward64_total by blast
qed

lemma example64_shapes:
  "has_shape example_X64 1 2" "wf_mlp64 example_mlp64 2 1 1"
  by (simp_all add: has_shape_def wf_mlp64_def example_X64_def example_mlp64_def)

theorem forward64_output_range_witness:
  "\<exists>P. snd (forward64 libm example_mlp64 example_X64) = Inr P \<and> has_shape P 1 1
       \<and> (entry P 0 0 = NaN \<or> (\<exists>p. entry P 0 0 = Fin p \<and> 0 \<le> p \<and> p \<le> 1))"
proof -
  note w = forward64_output_range[OF exp_ok_libm, of example_mlp64 example_X64 1 2 1 1]
  obtain P where P: "snd (forward64 libm example_mlp64 example_X64) = Inr P" "has_shape P 1 1"
    using w example64_shapes by blast
  have r: "\<forall>r\<in>set (rows P). \<forall>v\<in>set r. v = NaN \<or> (\<exists>p. v = Fin p \<and> 0 \<le> p \<and> p \<le> 1)"
    using w P(1) by blast
  have "rows P ! 0 \<in> set (rows P)" "length (rows P ! 0) = 1"
    using P(2) by (simp_all add: has_shape_def list_all_length)
  then have "entry P 0 0 \<in> set (rows P ! 0)"
    by (simp add: entry_def)
  then have "entry P 0 0 = NaN \<or> (\<exists>p. entry P 0 0 = Fin p \<and> 0 \<le> p \<and> p \<le> 1)"
    using r \<open>rows P ! 0 \<in> set (rows P)\<close> by blast
  then show ?thesis using P by blast
qed

text \<open>
  C6 as stated fails. On the batch of one sample \<open>(20, 20)\<close> the ReLU instance has
  \<open>Z2 = 40\<close>, and the float64 \<open>sigmoid\<close> of 40 is exactly 1: the entry returned is not
  below 1.
\<close>

theorem forward64_saturates_counterexample:
  "\<exists>P. snd (forward64 libm example_mlp64 example_X64) = Inr P \<and> entry P 0 0 = Fin 1"
  by (simp add: example64_forward entry_def)

section \<open>The backward pass\<close>

text \<open>
  C1. After \<open>forward(X)\<close> on a batch of \<open>m > 0\<close> feature vectors, \<open>backward(X, y)\<close> with
  labels \<open>y\<close> of shape \<open>(m, output_dim)\<close> raises nothing, stores the gradients
  \<open>dZ2 = A2 - y\<close>, \<open>grad W2 = A1\<^sup>T dZ2 / m\<close>, \<open>grad b2 =\<close> column sum of \<open>dZ2\<close> over \<open>m\<close>,
  \<open>dZ1 = (dZ2 W2\<^sup>T)\<close> times the activation derivative at the cached \<open>Z1\<close>,
  \<open>grad W1 = X\<^sup>T dZ1 / m\<close>, \<open>grad b1 =\<close> column sum of \<open>dZ1\<close> over \<open>m\<close>, all computed from the
  parameters as they were before the call, and replaces each of the four parameters by
  itself minus the learning rate times its gradient. Everything else on the instance is
  left as it was. (For \<open>m = 0\<close> numpy divides by zero and stores NaN, which the real
  numbers do not have.)
\<close>

theorem backward_computes:
  assumes X: "has_shape X m d" and y: "has_shape y m k" and s0: "wf_mlp s0 d h k"
    and m: "0 < m" and s: "s = fst (forward s0 X)"
  shows "\<exists>z1 a1 a2.
           Z1 s = Some z1 \<and> A1 s = Some a1 \<and> A2 s = Some a2
           \<and> (let dZ2 = spec_delta_out a2 y;
                   gW2 = spec_grad_weights a1 dZ2 m;
                   gb2 = spec_grad_bias dZ2 m;
                   dZ1 = spec_delta_hidden dZ2 (W2 s) (activation_derivative s) z1;
                   gW1 = spec_grad_weights X dZ1 m;
                   gb1 = spec_grad_bias dZ1 m
               in backward s X y =
                    (s\<lparr>gradients := (gradients s)(''W2'' \<mapsto> gW2, ''b2'' \<mapsto> gb2,
                                                    ''W1'' \<mapsto> gW1, ''b1'' \<mapsto> gb1),
                       W2 := spec_update (W2 s) (lr s) gW2,
                       b2 := spec_update (b2 s) (lr s) gb2,
                       W1 := spec_update (W1 s) (lr s) gW1,
                       b1 := spec_update (b1 s) (lr s) gb1\<rparr>, None))"
proof -
  let ?z1 = "spec_affine X (W1 s0) (b1 s0)"
  let ?a1 = "spec_apply (activation_fn s0) ?z1"
  let ?z2 = "spec_affine ?a1 (W2 s0) (b2 s0)"
  let ?a2 = "spec_apply sigmoid ?z2"
  have n: "nrows X = m" "ncols (W1 s0) = h" "ncols (W2 s0) = k"
    using X s0 has_shape_nrows[of X m d] has_shape_ncols[of "W1 s0" d h]
      has_shape_ncols[of "W2 s0" h k]
    by (simp_all add: wf_mlp_def)
  have c: "Z1 s = Some ?z1" "A1 s = Some ?a1" "A2 s = Some ?a2"
    by (simp_all add: s forward_spec[OF X s0])
  have wf: "wf_mlp s d h k"
    using s0 by (simp add: s forward_spec[OF X s0] wf_mlp_def)
  have sh: "has_shape ?z1 m h" "has_shape ?a1 m h" "has_shape ?a2 m k"
    using spec_affine_shape(3)[of X "W1 s0" "b1 s0"]
      spec_apply_shape(3)[of "activation_fn s0" ?z1] spec_apply_shape(3)[of sigmoid ?z2]
    by (simp_all add: n)
  show ?thesis
    using backward_tabulate[OF X y wf c sh] c by (simp add: Let_def)
qed

theorem backward_computes_witness:
  "snd (backward (fst (forward example_mlp example_X)) example_X example_y) = None
   \<and> A2 (fst (forward example_mlp example_X)) = Some \<lparr>ncols = 1, rows = [[sigmoid 3]]\<rparr>"
proof -
  have f: "A2 (fst (forward example_mlp example_X)) = Some \<lparr>ncols = 1, rows = [[sigmoid 3]]\<rparr>"
    by (simp add: forward_spec[OF example_shapes(1) example_shapes(3)] example_forward)
      (simp add: example_mlp_def spec_affine_def spec_apply_def tabulate_def nrows_def entry_def
        relu_def)
  show ?thesis
    using backward_computes[OF example_shapes(1) example_shapes(2) example_shapes(3), of
        "fst (forward example_mlp example_X)"] f
    by (auto simp: Let_def)
qed

section \<open>One step and the squared-error loss\<close>

lemma sigmoid_deriv: "(sigmoid has_real_derivative sigmoid z * (1 - sigmoid z)) (at z)"
proof -
  have p: "1 + exp (- z) \<noteq> 0"
    using exp_gt_zero[of "- z"] by (simp add: add_pos_pos less_imp_neq[symmetric])
  have "((\<lambda>x. 1 / (1 + exp (- x))) has_real_derivative sigmoid z * (1 - sigmoid z)) (at z)"
    using p
    by (auto intro!: derivative_eq_intros simp: sigmoid_def field_simps power2_eq_square)
  then show ?thesis
    by (simp add: sigmoid_def[abs_def])
qed

lemma hidden_unit_deriv:
  assumes "f' z = 0 \<or> (f has_real_derivative f' z) (at z)"
  shows "((\<lambda>\<eta>. f (z - \<eta> * (c * f' z))) has_real_derivative (- (c * f' z) * f' z)) (at 0)"
proof (cases "f' z = 0")
  case True
  then show ?thesis by simp
next
  case False
  then have d: "(f has_real_derivative f' z) (at (z - 0 * (c * f' z)))"
    using assms by simp
  have g: "((\<lambda>\<eta>. z - \<eta> * (c * f' z)) has_real_derivative (- (c * f' z))) (at 0)"
    by (auto intro!: derivative_eq_intros)
  show ?thesis
    using DERIV_chain2[OF d g] by (simp add: mult.commute)
qed

lemma output_deriv:
  fixes f f' :: "real \<Rightarrow> real" and z1 w2 c :: "nat \<Rightarrow> real"
  assumes act: "\<And>l. l < h \<Longrightarrow> f' (z1 l) = 0 \<or> (f has_real_derivative f' (z1 l)) (at (z1 l))"
  shows "((\<lambda>\<eta>. (\<Sum>l<h. f (z1 l - \<eta> * (c l * f' (z1 l))) * (w2 l - \<eta> * (f (z1 l) * r)))
               + (c2 - \<eta> * r))
          has_real_derivative
          - ((\<Sum>l<h. c l * w2 l * (f' (z1 l))\<^sup>2 + r * (f (z1 l))\<^sup>2) + r)) (at 0)"
proof -
  have u: "((\<lambda>\<eta>. f (z1 l - \<eta> * (c l * f' (z1 l))) * (w2 l - \<eta> * (f (z1 l) * r)))
            has_real_derivative
            - (c l * w2 l * (f' (z1 l))\<^sup>2 + r * (f (z1 l))\<^sup>2)) (at 0)" if "l < h" for l
  proof -
    have hu: "((\<lambda>\<eta>. f (z1 l - \<eta> * (c l * f' (z1 l)))) has_real_derivative
                (- (c l * f' (z1 l)) * f' (z1 l))) (at 0)"
      using hidden_unit_deriv[of f' "z1 l" f "c l"] act[OF that] by blast
    have lin: "((\<lambda>\<eta>. w2 l - \<eta> * (f (z1 l) * r)) has_real_derivative - (f (z1 l) * r)) (at 0)"
      by (auto intro!: derivative_eq_intros)
    show ?thesis
      using DERIV_mult[OF hu lin] by (simp add: power2_eq_square algebra_simps)
  qed
  have S: "((\<lambda>\<eta>. (\<Sum>l<h. f (z1 l - \<eta> * (c l * f' (z1 l))) * (w2 l - \<eta> * (f (z1 l) * r))))
          has_real_derivative
          (\<Sum>l<h. - (c l * w2 l * (f' (z1 l))\<^sup>2 + r * (f (z1 l))\<^sup>2))) (at 0)"
    by (rule DERIV_sum, rule u, simp)
  have T: "((\<lambda>\<eta>. c2 - \<eta> * r) has_real_derivative - r) (at 0)"
    by (auto intro!: derivative_eq_intros)
  have E: "(\<Sum>l<h. - (c l * w2 l * (f' (z1 l))\<^sup>2 + r * (f (z1 l))\<^sup>2)) + - r
         = - ((\<Sum>l<h. c l * w2 l * (f' (z1 l))\<^sup>2 + r * (f (z1 l))\<^sup>2) + r)"
    by (simp only: sum_negf)
  show ?thesis
    by (rule DERIV_cong[OF DERIV_add[OF S T] E])
qed

lemma scalar_step_decreases:
  fixes f f' :: "real \<Rightarrow> real" and z1 w2 :: "nat \<Rightarrow> real"
  assumes act: "\<And>l. l < h \<Longrightarrow> f' (z1 l) = 0 \<or> (f has_real_derivative f' (z1 l)) (at (z1 l))"
    and q: "0 \<le> q"
    and z2: "z2 = (\<Sum>l<h. f (z1 l) * w2 l) + c2"
    and r: "r = sigmoid z2 - t" and ne: "r \<noteq> 0"
  shows "\<exists>\<epsilon>>0. \<forall>\<eta>>0. \<eta> < \<epsilon> \<longrightarrow>
           (sigmoid ((\<Sum>l<h. f (z1 l - \<eta> * (r * w2 l * q * f' (z1 l))) * (w2 l - \<eta> * (f (z1 l) * r)))
                     + (c2 - \<eta> * r)) - t)\<^sup>2
           < (sigmoid z2 - t)\<^sup>2"
proof -
  let ?psi = "\<lambda>\<eta>. (\<Sum>l<h. f (z1 l - \<eta> * (r * w2 l * q * f' (z1 l))) * (w2 l - \<eta> * (f (z1 l) * r)))
                     + (c2 - \<eta> * r)"
  let ?K = "(\<Sum>l<h. q * (w2 l * f' (z1 l))\<^sup>2 + (f (z1 l))\<^sup>2) + 1"
  let ?L = "\<lambda>\<eta>. (sigmoid (?psi \<eta>) - t)\<^sup>2"
  have psi0: "?psi 0 = z2" by (simp add: z2)
  have "(?psi has_real_derivative
          - ((\<Sum>l<h. (r * w2 l * q) * w2 l * (f' (z1 l))\<^sup>2 + r * (f (z1 l))\<^sup>2) + r)) (at 0)"
    by (rule output_deriv[of h f' z1 f "\<lambda>l. r * w2 l * q" w2 r c2, OF act])
  moreover have "(\<Sum>l<h. (r * w2 l * q) * w2 l * (f' (z1 l))\<^sup>2 + r * (f (z1 l))\<^sup>2) + r = r * ?K"
    by (simp add: sum_distrib_left power2_eq_square algebra_simps)
  ultimately have dpsi: "(?psi has_real_derivative - (r * ?K)) (at 0)"
    by simp
  have sg: "(sigmoid has_real_derivative sigmoid z2 * (1 - sigmoid z2)) (at (?psi 0))"
    unfolding psi0 by (rule sigmoid_deriv)
  have dsig: "((\<lambda>\<eta>. sigmoid (?psi \<eta>)) has_real_derivative
                sigmoid z2 * (1 - sigmoid z2) * (- (r * ?K))) (at 0)"
    by (rule DERIV_chain2[OF sg dpsi])
  define K where "K = ?K"
  define v where "v = sigmoid z2 * (1 - sigmoid z2)"
  define psi where "psi = ?psi"
  have dsig': "((\<lambda>\<eta>. sigmoid (psi \<eta>)) has_real_derivative v * (- (r * K))) (at 0)"
    using dsig by (simp add: K_def v_def psi_def)
  have p0: "sigmoid (psi 0) - t = r"
    using psi0 by (simp add: psi_def r)
  have dg: "((\<lambda>\<eta>. sigmoid (psi \<eta>) - t) has_real_derivative v * (- (r * K))) (at 0)"
    using DERIV_diff[OF dsig' DERIV_const[of t]] by simp
  have dL0: "((\<lambda>\<eta>. (sigmoid (psi \<eta>) - t) * (sigmoid (psi \<eta>) - t)) has_real_derivative
               (v * (- (r * K))) * r + (v * (- (r * K))) * r) (at 0)"
    using DERIV_mult[OF dg dg] by (simp add: p0 mult.commute)
  have K: "1 \<le> K"
    using q by (simp add: K_def sum_nonneg)
  have sp: "0 < v"
    using sigmoid_pos[of z2] sigmoid_less_one[of z2] by (simp add: v_def)
  have "0 < r * r" using ne by (auto simp: zero_less_mult_iff)
  then have pos: "0 < v * K * (r * r)" using K sp by simp
  have eq: "(v * (- (r * K))) * r + (v * (- (r * K))) * r = - (2 * (v * K * (r * r)))"
    by (simp add: algebra_simps)
  have neg: "(v * (- (r * K))) * r + (v * (- (r * K))) * r < 0"
    unfolding eq using pos by linarith
  have dL: "(?L has_real_derivative (v * (- (r * K))) * r + (v * (- (r * K))) * r) (at 0)"
    using dL0 by (simp add: psi_def power2_eq_square)
  obtain e where e: "0 < e" "\<forall>\<eta>>0. \<eta> < e \<longrightarrow> ?L 0 > ?L (0 + \<eta>)"
    using DERIV_neg_dec_right[OF dL neg] by blast
  have "\<forall>\<eta>>0. \<eta> < e \<longrightarrow> ?L \<eta> < (sigmoid z2 - t)\<^sup>2"
  proof (intro allI impI)
    fix \<eta> :: real assume "0 < \<eta>" "\<eta> < e"
    then have "?L (0 + \<eta>) < ?L 0" using e(2) by blast
    then show "?L \<eta> < (sigmoid z2 - t)\<^sup>2" by (simp add: z2)
  qed
  then show ?thesis using e(1) by blast
qed

lemma singleton_rows:
  assumes "has_shape A 1 1"
  shows "rows A = [[entry A 0 0]]"
proof -
  obtain r where r: "rows A = [r]" "length r = 1"
    using assms by (cases "rows A") (auto simp: has_shape_def)
  then obtain v where "r = [v]"
    by (cases r) auto
  then show ?thesis using r by (simp add: entry_def)
qed

lemma mse_loss_single:
  assumes "has_shape P 1 1" "has_shape y 1 1"
  shows "mse_loss P y = (entry P 0 0 - entry y 0 0)\<^sup>2"
  using assms singleton_rows[OF assms(1)] singleton_rows[OF assms(2)]
  by (simp add: mse_loss_def nrows_def has_shape_def)

lemma entry_spec_affine:
  "i < nrows A \<Longrightarrow> j < ncols W \<Longrightarrow>
   entry (spec_affine A W b) i j = (\<Sum>l<ncols A. entry A i l * entry W l j) + entry b 0 j"
  by (simp add: spec_affine_def entry_tabulate)

lemma spec_update_shape [simp]:
  "nrows (spec_update P c G) = nrows P" "ncols (spec_update P c G) = ncols P"
  "has_shape (spec_update P c G) (nrows P) (ncols P)"
  by (simp_all add: spec_update_def has_shape_tabulate)

lemma entry_spec_update:
  "i < nrows P \<Longrightarrow> j < ncols P \<Longrightarrow>
   entry (spec_update P c G) i j = entry P i j - c * entry G i j"
  by (simp add: spec_update_def entry_tabulate)

lemma entry_spec_grad_weights:
  "i < ncols A \<Longrightarrow> j < ncols D \<Longrightarrow>
   entry (spec_grad_weights A D m) i j = (\<Sum>l<m. entry A l i * entry D l j) / real m"
  by (simp add: spec_grad_weights_def entry_tabulate)

lemma entry_spec_grad_bias:
  "j < ncols D \<Longrightarrow> entry (spec_grad_bias D m) 0 j = (\<Sum>l<m. entry D l j) / real m"
  by (simp add: spec_grad_bias_def entry_tabulate)

lemma entry_spec_delta_out:
  "i < nrows A \<Longrightarrow> j < ncols A \<Longrightarrow> entry (spec_delta_out A y) i j = entry A i j - entry y i j"
  by (simp add: spec_delta_out_def entry_tabulate)

lemma spec_delta_out_shape [simp]:
  "nrows (spec_delta_out A y) = nrows A" "ncols (spec_delta_out A y) = ncols A"
  by (simp_all add: spec_delta_out_def)

lemma entry_spec_delta_hidden:
  "i < nrows z \<Longrightarrow> j < ncols z \<Longrightarrow>
   entry (spec_delta_hidden D W f' z) i j
     = (\<Sum>l<ncols D. entry D i l * entry W j l) * f' (entry z i j)"
  by (simp add: spec_delta_hidden_def entry_tabulate)

lemma spec_delta_hidden_shape [simp]:
  "nrows (spec_delta_hidden D W f' z) = nrows z" "ncols (spec_delta_hidden D W f' z) = ncols z"
  by (simp_all add: spec_delta_hidden_def)

lemma affine_step:
  fixes x :: "nat \<Rightarrow> real"
  shows "(\<Sum>i<d. x i * (w i - \<eta> * (x i * \<delta>))) + (c - \<eta> * \<delta>)
       = ((\<Sum>i<d. x i * w i) + c) - \<eta> * (\<delta> * ((\<Sum>i<d. (x i)\<^sup>2) + 1))"
  by (simp add: algebra_simps sum_subtractf sum_distrib_left power2_eq_square)

lemma single_sample_step:
  assumes X: "has_shape X 1 d" and y: "has_shape y 1 1" and s0: "wf_mlp s0 d h 1"
    and s_def: "s = fst (forward s0 X)"
    and f_def: "f = activation_fn s0" and f'_def: "f' = activation_derivative s0"
    and z1_def: "z1 = (\<lambda>l. (\<Sum>i<d. entry X 0 i * entry (W1 s0) i l) + entry (b1 s0) 0 l)"
    and w2_def: "w2 = (\<lambda>l. entry (W2 s0) l 0)" and c2_def: "c2 = entry (b2 s0) 0 0"
    and z2_def: "z2 = (\<Sum>l<h. f (z1 l) * w2 l) + c2"
    and t_def: "t = entry y 0 0"
    and r_def: "r = sigmoid z2 - t"
    and q_def: "q = (\<Sum>i<d. (entry X 0 i)\<^sup>2) + 1"
  shows "batch_loss (s\<lparr>lr := \<eta>\<rparr>) X y = Inr ((sigmoid z2 - t)\<^sup>2)"
    and "snd (forward s0 X) = Inr P \<Longrightarrow> entry P 0 0 = sigmoid z2"
    and "\<exists>s'. backward (s\<lparr>lr := \<eta>\<rparr>) X y = (s', None)
          \<and> batch_loss s' X y =
              Inr ((sigmoid ((\<Sum>l<h. f (z1 l - \<eta> * (r * w2 l * q * f' (z1 l)))
                                   * (w2 l - \<eta> * (f (z1 l) * r)))
                             + (c2 - \<eta> * r)) - t)\<^sup>2)"
proof -
  let ?Z1 = "spec_affine X (W1 s0) (b1 s0)"
  let ?A1 = "spec_apply f ?Z1"
  let ?Z2 = "spec_affine ?A1 (W2 s0) (b2 s0)"
  let ?A2 = "spec_apply sigmoid ?Z2"
  let ?D2 = "spec_delta_out ?A2 y"
  let ?G2 = "spec_grad_weights ?A1 ?D2 (Suc 0)"
  let ?g2 = "spec_grad_bias ?D2 (Suc 0)"
  let ?D1 = "spec_delta_hidden ?D2 (W2 s0) f' ?Z1"
  let ?G1 = "spec_grad_weights X ?D1 (Suc 0)"
  let ?g1 = "spec_grad_bias ?D1 (Suc 0)"
  let ?se = "s\<lparr>lr := \<eta>\<rparr>"
  have sh: "has_shape (W1 s0) d h" "has_shape (b1 s0) 1 h" "has_shape (W2 s0) h 1"
      "has_shape (b2 s0) 1 1"
    using s0 by (simp_all add: wf_mlp_def)
  have n: "nrows X = 1" "ncols X = d" "nrows (W1 s0) = d" "ncols (W1 s0) = h"
      "nrows (b1 s0) = 1" "ncols (b1 s0) = h" "nrows (W2 s0) = h" "ncols (W2 s0) = 1"
      "nrows (b2 s0) = 1" "ncols (b2 s0) = 1"
    using X sh by (simp_all add: has_shape_def nrows_def)
  have fw: "forward s0 X =
      (s0\<lparr>Z1 := Some ?Z1, A1 := Some ?A1, Z2 := Some ?Z2, A2 := Some ?A2,
          hidden_features := Some ?A1\<rparr>, Inr ?A2)"
    using forward_spec[OF X s0] by (simp add: f_def)
  have se: "W1 ?se = W1 s0" "b1 ?se = b1 s0" "W2 ?se = W2 s0" "b2 ?se = b2 s0"
      "activation_fn ?se = f" "activation_derivative ?se = f'" "lr ?se = \<eta>"
      "Z1 ?se = Some ?Z1" "A1 ?se = Some ?A1" "A2 ?se = Some ?A2"
    by (simp_all add: s_def fw f_def f'_def)
  have ss: "W1 s = W1 s0" "b1 s = b1 s0" "W2 s = W2 s0" "b2 s = b2 s0"
      "activation_fn s = f" "activation_derivative s = f'"
    by (simp_all add: s_def fw f_def f'_def)
  have wfe: "wf_mlp ?se d h 1"
    using s0 by (simp add: wf_mlp_def se)
  have e_z1: "entry ?Z1 0 l = z1 l" if "l < h" for l
    using that by (simp add: entry_spec_affine n z1_def)
  have e_a1: "entry ?A1 0 l = f (z1 l)" if "l < h" for l
    using that by (simp add: entry_spec_apply n e_z1)
  have e_z2: "entry ?Z2 0 0 = z2"
    by (simp add: entry_spec_affine n e_a1 z2_def w2_def c2_def)
  have e_a2: "entry ?A2 0 0 = sigmoid z2"
    by (simp add: entry_spec_apply n e_z2)
  show "entry P 0 0 = sigmoid z2" if "snd (forward s0 X) = Inr P"
    using that fw e_a2 by simp
  have shA2: "has_shape ?A2 1 1"
    using spec_apply_shape(3)[of sigmoid ?Z2] by (simp add: n)
  show "batch_loss ?se X y = Inr ((sigmoid z2 - t)\<^sup>2)"
    using forward_spec[OF X wfe]
    by (simp add: batch_loss_def se mse_loss_single[OF shA2 y] e_a2 t_def)
  have cs: "has_shape ?Z1 1 h" "has_shape ?A1 1 h" "has_shape ?A2 1 1"
    using spec_affine_shape(3)[of X "W1 s0" "b1 s0"] spec_apply_shape(3)[of f ?Z1] shA2
    by (simp_all add: n)
  let ?s' = "?se\<lparr>gradients := (gradients ?se)(''W2'' \<mapsto> ?G2, ''b2'' \<mapsto> ?g2,
                                                ''W1'' \<mapsto> ?G1, ''b1'' \<mapsto> ?g1),
               W2 := spec_update (W2 s0) \<eta> ?G2, b2 := spec_update (b2 s0) \<eta> ?g2,
               W1 := spec_update (W1 s0) \<eta> ?G1, b1 := spec_update (b1 s0) \<eta> ?g1\<rparr>"
  have bw: "backward ?se X y = (?s', None)"
    using backward_tabulate[OF X y wfe se(8) se(9) se(10) cs] by (simp add: se)
  have e_d2: "entry ?D2 0 0 = r"
    by (simp add: entry_spec_delta_out n e_a2 r_def t_def)
  have e_G2: "entry ?G2 l 0 = f (z1 l) * r" if "l < h" for l
    using that by (simp add: entry_spec_grad_weights n e_a1 e_d2)
  have e_g2: "entry ?g2 0 0 = r"
    by (simp add: entry_spec_grad_bias n e_d2)
  have e_D1: "entry ?D1 0 l = r * w2 l * f' (z1 l)" if "l < h" for l
    using that by (simp add: entry_spec_delta_hidden n e_d2 e_z1 w2_def)
  have e_G1: "entry ?G1 i l = entry X 0 i * (r * w2 l * f' (z1 l))" if "i < d" "l < h" for i l
    using that by (simp add: entry_spec_grad_weights n e_D1)
  have e_g1: "entry ?g1 0 l = r * w2 l * f' (z1 l)" if "l < h" for l
    using that by (simp add: entry_spec_grad_bias n e_D1)
  have wf': "wf_mlp ?s' d h 1"
    using spec_update_shape(3)[of "W1 s0" \<eta> ?G1] spec_update_shape(3)[of "b1 s0" \<eta> ?g1]
      spec_update_shape(3)[of "W2 s0" \<eta> ?G2] spec_update_shape(3)[of "b2 s0" \<eta> ?g2]
    by (simp add: wf_mlp_def n)
  let ?W1n = "spec_update (W1 s0) \<eta> ?G1"
  let ?b1n = "spec_update (b1 s0) \<eta> ?g1"
  let ?W2n = "spec_update (W2 s0) \<eta> ?G2"
  let ?b2n = "spec_update (b2 s0) \<eta> ?g2"
  let ?Z1n = "spec_affine X ?W1n ?b1n"
  let ?A1n = "spec_apply f ?Z1n"
  let ?Z2n = "spec_affine ?A1n ?W2n ?b2n"
  let ?A2n = "spec_apply sigmoid ?Z2n"
  have fw': "snd (forward ?s' X) = Inr ?A2n"
    using forward_spec[OF X wf'] by (simp add: ss)
  have e_z1n: "entry ?Z1n 0 l = z1 l - \<eta> * (r * w2 l * q * f' (z1 l))" if "l < h" for l
  proof -
    have "entry ?Z1n 0 l
        = (\<Sum>i<d. entry X 0 i * (entry (W1 s0) i l - \<eta> * (entry X 0 i * (r * w2 l * f' (z1 l)))))
          + (entry (b1 s0) 0 l - \<eta> * (r * w2 l * f' (z1 l)))"
      using that by (simp add: entry_spec_affine entry_spec_update n e_G1 e_g1)
    also have "\<dots> = z1 l - \<eta> * ((r * w2 l * f' (z1 l)) * q)"
      unfolding z1_def q_def by (rule affine_step)
    finally show ?thesis by (simp add: mult_ac)
  qed
  have e_a1n: "entry ?A1n 0 l = f (z1 l - \<eta> * (r * w2 l * q * f' (z1 l)))" if "l < h" for l
    using that by (simp add: entry_spec_apply n e_z1n)
  have e_z2n: "entry ?Z2n 0 0
      = (\<Sum>l<h. f (z1 l - \<eta> * (r * w2 l * q * f' (z1 l))) * (w2 l - \<eta> * (f (z1 l) * r)))
        + (c2 - \<eta> * r)"
    by (simp add: entry_spec_affine entry_spec_update n e_a1n e_G2 e_g2 w2_def c2_def)
  have e_a2n: "entry ?A2n 0 0
      = sigmoid ((\<Sum>l<h. f (z1 l - \<eta> * (r * w2 l * q * f' (z1 l))) * (w2 l - \<eta> * (f (z1 l) * r)))
        + (c2 - \<eta> * r))"
    by (simp add: entry_spec_apply n e_z2n)
  have shA2n: "has_shape ?A2n 1 1"
    using spec_apply_shape(3)[of sigmoid ?Z2n] by (simp add: n)
  have "batch_loss ?s' X y =
      Inr ((sigmoid ((\<Sum>l<h. f (z1 l - \<eta> * (r * w2 l * q * f' (z1 l)))
                                   * (w2 l - \<eta> * (f (z1 l) * r)))
                             + (c2 - \<eta> * r)) - t)\<^sup>2)"
    unfolding batch_loss_def fw'
    by (simp add: mse_loss_single[OF shA2n y] e_a2n t_def)
  then show "\<exists>s'. backward ?se X y = (s', None)
          \<and> batch_loss s' X y =
              Inr ((sigmoid ((\<Sum>l<h. f (z1 l - \<eta> * (r * w2 l * q * f' (z1 l)))
                                   * (w2 l - \<eta> * (f (z1 l) * r)))
                             + (c2 - \<eta> * r)) - t)\<^sup>2)"
    using bw by blast
qed

lemma forward_params_only:
  assumes "W1 s' = W1 s" "b1 s' = b1 s" "W2 s' = W2 s" "b2 s' = b2 s"
    "activation_fn s' = activation_fn s"
  shows "snd (forward s' X) = snd (forward s X)"
  by (simp add: forward_def Let_def assms split: sum.splits)

lemma batch_loss_params_only:
  assumes "W1 s' = W1 s" "b1 s' = b1 s" "W2 s' = W2 s" "b2 s' = b2 s"
    "activation_fn s' = activation_fn s"
  shows "batch_loss s' X y = batch_loss s X y"
  by (simp add: batch_loss_def forward_params_only[OF assms])

lemma relu_deriv_pos:
  assumes "0 < z"
  shows "(relu has_real_derivative 1) (at z)"
proof -
  have "eventually (\<lambda>x. relu x = x) (nhds z)"
    unfolding eventually_nhds
    by (rule exI[of _ "{0<..}"]) (use assms in \<open>auto simp: relu_def\<close>)
  moreover have "((\<lambda>x. x) has_real_derivative 1) (at z)"
    by (rule DERIV_ident)
  ultimately show ?thesis
    using DERIV_cong_ev[of z z relu "\<lambda>x. x" 1 1] by simp
qed

lemma supported_activation_smooth:
  assumes "supported_activation s"
  shows "activation_derivative s z = 0
         \<or> (activation_fn s has_real_derivative activation_derivative s z) (at z)"
proof -
  have t: "(tanh_fn has_real_derivative tanh_derivative z) (at z)"
  proof -
    have "(tanh has_real_derivative 1 - (tanh z)\<^sup>2) (at z)"
      by (auto intro!: derivative_eq_intros)
    then show ?thesis
      by (simp add: tanh_fn_def[abs_def] tanh_derivative_def)
  qed
  have g: "(sigmoid has_real_derivative sigmoid_derivative z) (at z)"
    using sigmoid_deriv[of z] by (simp add: sigmoid_derivative_def Let_def)
  have r: "relu_derivative z = 0 \<or> (relu has_real_derivative relu_derivative z) (at z)"
    using relu_deriv_pos[of z] by (simp add: relu_derivative_def)
  show ?thesis
    using assms t g r unfolding supported_activation_def by auto
qed

lemma forward_lr: "fst (forward (s\<lparr>lr := \<eta>\<rparr>) X) = (fst (forward s X))\<lparr>lr := \<eta>\<rparr>"
  by (simp add: forward_def Let_def split: sum.splits)

text \<open>
  In exact real arithmetic, where no update is too small to be seen: for a batch of one
  sample and a network with one output, configured with one of the three supported
  activations, and a label that differs from the prediction, there is a threshold
  \<open>\<epsilon> > 0\<close>, depending on the instance and the batch, such that \<open>backward\<close> with any
  learning rate \<open>0 < lr < \<epsilon>\<close> strictly decreases the squared-error loss on that batch.
  With rounding this fails for learning rates so small that the update is lost, and it
  says nothing about larger batches or several outputs.
\<close>

lemma single_sample_descent_exact:
  assumes X: "has_shape X 1 d" and y: "has_shape y 1 1" and s0: "wf_mlp s0 d h 1"
    and act: "supported_activation s0"
    and P: "snd (forward s0 X) = Inr P" and ne: "entry P 0 0 \<noteq> entry y 0 0"
  shows "\<exists>\<epsilon>>0. \<forall>\<eta>. 0 < \<eta> \<and> \<eta> < \<epsilon> \<longrightarrow>
           backward_decreases_loss (fst (forward (s0\<lparr>lr := \<eta>\<rparr>) X)) X y"
proof -
  define s where "s = fst (forward s0 X)"
  define f where "f = activation_fn s0"
  define f' where "f' = activation_derivative s0"
  define z1 where "z1 = (\<lambda>l. (\<Sum>i<d. entry X 0 i * entry (W1 s0) i l) + entry (b1 s0) 0 l)"
  define w2 where "w2 = (\<lambda>l. entry (W2 s0) l 0)"
  define c2 where "c2 = entry (b2 s0) 0 0"
  define z2 where "z2 = (\<Sum>l<h. f (z1 l) * w2 l) + c2"
  define t where "t = entry y 0 0"
  define r where "r = sigmoid z2 - t"
  define q where "q = (\<Sum>i<d. (entry X 0 i)\<^sup>2) + 1"
  note st = single_sample_step[OF X y s0 s_def f_def f'_def z1_def w2_def c2_def z2_def
      t_def r_def q_def]
  have "entry P 0 0 = sigmoid z2"
    using st(2)[OF P] .
  then have r0: "r \<noteq> 0"
    using ne by (simp add: r_def t_def)
  have q0: "0 \<le> q"
    by (simp add: q_def sum_nonneg)
  have sm: "f' (z1 l) = 0 \<or> (f has_real_derivative f' (z1 l)) (at (z1 l))" for l
    unfolding f_def f'_def by (rule supported_activation_smooth[OF act])
  obtain e where e: "0 < e"
    "\<forall>\<eta>>0. \<eta> < e \<longrightarrow>
       (sigmoid ((\<Sum>l<h. f (z1 l - \<eta> * (r * w2 l * q * f' (z1 l))) * (w2 l - \<eta> * (f (z1 l) * r)))
                 + (c2 - \<eta> * r)) - t)\<^sup>2
       < (sigmoid z2 - t)\<^sup>2"
    using scalar_step_decreases[of h f' z1 f q z2 w2 c2 r t, OF sm q0 z2_def r_def r0]
    by blast
  have "backward_decreases_loss (s\<lparr>lr := \<eta>\<rparr>) X y" if "0 < \<eta>" "\<eta> < e" for \<eta>
  proof -
    obtain s' where s': "backward (s\<lparr>lr := \<eta>\<rparr>) X y = (s', None)"
      "batch_loss s' X y =
         Inr ((sigmoid ((\<Sum>l<h. f (z1 l - \<eta> * (r * w2 l * q * f' (z1 l)))
                                 * (w2 l - \<eta> * (f (z1 l) * r)))
                        + (c2 - \<eta> * r)) - t)\<^sup>2)"
      using st(3)[of \<eta>] by blast
    show ?thesis
      using e(2) that by (simp add: backward_decreases_loss_def s' st(1))
  qed
  then show ?thesis
    using e(1) unfolding s_def forward_lr by blast
qed

lemmas np_eval = matmul_def cols_def dot_def add_np_def sub_np_def mul_np_def isub_np_def
  binop_def bdim_def stretch_def elementwise_def nrows_def shape_def transpose_np_def
  sum_axis0_def div_scalar_def scale_def tanh_fn_def tanh_derivative_def sigmoid_def
  store_gradient_def step_size_def lookup_def Let_def numeral_2_eq_2 numeral_3_eq_3

lemma flat_forward:
  "forward flat_mlp flat_X =
     (flat_mlp\<lparr>Z1 := Some \<lparr>ncols = 3, rows = [[0, 0, 0], [0, 0, 0]]\<rparr>,
               A1 := Some \<lparr>ncols = 3, rows = [[0, 0, 0], [0, 0, 0]]\<rparr>,
               Z2 := Some \<lparr>ncols = 1, rows = [[0], [0]]\<rparr>,
               A2 := Some \<lparr>ncols = 1, rows = [[1 / 2], [1 / 2]]\<rparr>,
               hidden_features := Some \<lparr>ncols = 3, rows = [[0, 0, 0], [0, 0, 0]]\<rparr>\<rparr>,
      Inr \<lparr>ncols = 1, rows = [[1 / 2], [1 / 2]]\<rparr>)"
  by (simp add: forward_def flat_mlp_def flat_X_def np_eval)

lemma flat_backward:
  "backward (fst (forward flat_mlp flat_X)) flat_X flat_y =
     ((fst (forward flat_mlp flat_X))
        \<lparr>gradients := [''W2'' \<mapsto> \<lparr>ncols = 1, rows = [[0], [0], [0]]\<rparr>,
                       ''b2'' \<mapsto> \<lparr>ncols = 1, rows = [[0]]\<rparr>,
                       ''W1'' \<mapsto> \<lparr>ncols = 3, rows = [[0, 0, 0], [0, 0, 0]]\<rparr>,
                       ''b1'' \<mapsto> \<lparr>ncols = 3, rows = [[0, 0, 0]]\<rparr>]\<rparr>, None)"
  unfolding flat_forward fst_conv
  by (simp add: backward_def flat_mlp_def flat_X_def flat_y_def np_eval)

lemma flat_loss_before:
  "batch_loss (fst (forward flat_mlp flat_X)) flat_X flat_y = Inr (1 / 4)"
  unfolding flat_forward fst_conv
  by (simp add: batch_loss_def forward_def mse_loss_def flat_mlp_def flat_X_def flat_y_def
      np_eval power2_eq_square)

lemma flat_loss_after:
  "batch_loss (fst (backward (fst (forward flat_mlp flat_X)) flat_X flat_y)) flat_X flat_y
     = Inr (1 / 4)"
proof -
  have "batch_loss (fst (backward (fst (forward flat_mlp flat_X)) flat_X flat_y)) flat_X flat_y
      = batch_loss (fst (forward flat_mlp flat_X)) flat_X flat_y"
    unfolding flat_backward fst_conv
    by (rule batch_loss_params_only) simp_all
  then show ?thesis
    by (simp only: flat_loss_before)
qed





text \<open>
  C3 as stated fails. On the instance \<open>flat_mlp\<close> with learning rate 0.01 and the batch
  \<open>(flat_X, flat_y)\<close>, after \<open>forward\<close>, one \<open>backward\<close> call raises nothing and leaves the
  loss at 1/4: all four gradients are zero, so the loss does not strictly decrease.
\<close>

theorem backward_stationary_counterexample:
  "lr (fst (forward flat_mlp flat_X)) = 1 / 100
   \<and> snd (backward (fst (forward flat_mlp flat_X)) flat_X flat_y) = None
   \<and> batch_loss (fst (forward flat_mlp flat_X)) flat_X flat_y = Inr (1 / 4)
   \<and> batch_loss (fst (backward (fst (forward flat_mlp flat_X)) flat_X flat_y)) flat_X flat_y
       = Inr (1 / 4)
   \<and> \<not> backward_decreases_loss (fst (forward flat_mlp flat_X)) flat_X flat_y"
proof -
  have 1: "lr (fst (forward flat_mlp flat_X)) = 1 / 100"
    unfolding flat_forward fst_conv by (simp add: flat_mlp_def)
  have 2: "snd (backward (fst (forward flat_mlp flat_X)) flat_X flat_y) = None"
    unfolding flat_backward by simp
  have 3: "\<not> backward_decreases_loss (fst (forward flat_mlp flat_X)) flat_X flat_y"
    unfolding backward_decreases_loss_def flat_loss_before
    using flat_loss_after by (simp add: flat_backward)
  show ?thesis
    using 1 2 3 flat_loss_before flat_loss_after by blast
qed














lemma rnd_100: "rnd 100 = Fin 100"
  using rnd_int[of 100] by simp

lemma rnd_high:
  assumes "64 \<le> x" "x \<le> 128"
  shows "\<exists>b. rnd x = Fin b \<and> 64 \<le> b \<and> b \<le> 128"
proof -
  have p6: "pow2 6 = 64" using pow2_nat[of 6] by simp
  have p7: "pow2 7 = 128" using pow2_nat[of 7] by simp
  have x0: "x \<noteq> 0" using assms by simp
  have "\<bar>x\<bar> \<le> pow2 7" using assms by (simp add: p7)
  then obtain b where b: "rnd x = Fin b" "\<bar>b\<bar> \<le> pow2 7"
    using rnd_bracket[OF x0, of 7] by auto
  have "pow2 6 \<le> x" using assms by (simp add: p6)
  then have "rnd x = PInf \<or> (\<exists>y. rnd x = Fin y \<and> pow2 6 \<le> y)"
    by (rule rnd_lower) simp
  then have "64 \<le> b" using b by (simp add: p6)
  then show ?thesis using b by (simp add: p7)
qed

lemmas np_eval64 = forward64_def backward64_def matmul64_def dot64_def cols_def
  add_np64_def sub_np64_def mul_np64_def isub_np64_def binop64_def bdim_def stretch_def
  elementwise_def nrows_def shape_def transpose_np_def sum_axis0_64_def div_scalar64_def
  scale64_def store_gradient64_def step_size64_def lookup_def fsub_def Let_def

text \<open>
  In float64 C3 fails for a single sample and a single output as well. On the instance
  \<open>saturated_mlp64\<close> with learning rate 0.01 and the batch of one sample at the origin
  with label 0, \<open>forward\<close> returns exactly 1; \<open>backward\<close> raises nothing and stores the
  non-zero gradient 1 for \<open>b2\<close>; and \<open>forward\<close> on the same batch afterwards returns
  exactly 1 again, so no loss computed from the predictions and the labels has changed.
  In exact arithmetic the loss of this step would fall.
\<close>

theorem backward64_saturated_counterexample:
  "snd (forward64 libm saturated_mlp64 saturated_X64) = Inr \<lparr>ncols = 1, rows = [[Fin 1]]\<rparr>
   \<and> snd (backward64 (fst (forward64 libm saturated_mlp64 saturated_X64))
             saturated_X64 saturated_y64) = None
   \<and> gradients_64 (fst (backward64 (fst (forward64 libm saturated_mlp64 saturated_X64))
                           saturated_X64 saturated_y64)) ''b2''
       = Some \<lparr>ncols = 1, rows = [[Fin 1]]\<rparr>
   \<and> snd (forward64 libm
             (fst (backward64 (fst (forward64 libm saturated_mlp64 saturated_X64))
                     saturated_X64 saturated_y64)) saturated_X64)
       = Inr \<lparr>ncols = 1, rows = [[Fin 1]]\<rparr>"
proof -
  obtain l where l: "rnd (1 / 100) = Fin l" "0 \<le> l" "l \<le> 1"
    using rnd_unit[of "1 / 100"] by auto
  obtain l' where l': "rnd l = Fin l'" "0 \<le> l'" "l' \<le> 1"
    using rnd_unit[of l] l by auto
  obtain b where b: "rnd (100 - l') = Fin b" "64 \<le> b" "b \<le> 128"
    using rnd_high[of "100 - l'"] l' by auto
  obtain c where c: "rnd b = Fin c" "64 \<le> c" "c \<le> 128"
    using rnd_high[of b] b by auto
  have s100: "sigmoid64 libm (Fin 100) = Fin 1"
    by (rule sigmoid64_saturates) simp
  have sc: "sigmoid64 libm (Fin c) = Fin 1"
    using c by (intro sigmoid64_saturates) simp
  have fw: "forward64 libm saturated_mlp64 saturated_X64 =
     (saturated_mlp64\<lparr>Z1_64 := Some \<lparr>ncols = 1, rows = [[Fin 0]]\<rparr>,
                      A1_64 := Some \<lparr>ncols = 1, rows = [[Fin 0]]\<rparr>,
                      Z2_64 := Some \<lparr>ncols = 1, rows = [[Fin 100]]\<rparr>,
                      A2_64 := Some \<lparr>ncols = 1, rows = [[Fin 1]]\<rparr>,
                      hidden_features_64 := Some \<lparr>ncols = 1, rows = [[Fin 0]]\<rparr>\<rparr>,
      Inr \<lparr>ncols = 1, rows = [[Fin 1]]\<rparr>)"
    by (simp add: saturated_mlp64_def saturated_X64_def np_eval64 rnd_100 s100)
  have bw: "backward64 (fst (forward64 libm saturated_mlp64 saturated_X64))
              saturated_X64 saturated_y64 =
     (\<lparr>lr_64 = Fin l,
       W1_64 = \<lparr>ncols = 1, rows = [[Fin 1]]\<rparr>, b1_64 = \<lparr>ncols = 1, rows = [[Fin 0]]\<rparr>,
       W2_64 = \<lparr>ncols = 1, rows = [[Fin 1]]\<rparr>, b2_64 = \<lparr>ncols = 1, rows = [[Fin b]]\<rparr>,
       activation_fn_64 = relu64, activation_derivative_64 = relu_derivative64,
       hidden_features_64 = Some \<lparr>ncols = 1, rows = [[Fin 0]]\<rparr>,
       gradients_64 = [''W2'' \<mapsto> \<lparr>ncols = 1, rows = [[Fin 0]]\<rparr>,
                       ''b2'' \<mapsto> \<lparr>ncols = 1, rows = [[Fin 1]]\<rparr>,
                       ''W1'' \<mapsto> \<lparr>ncols = 1, rows = [[Fin 0]]\<rparr>,
                       ''b1'' \<mapsto> \<lparr>ncols = 1, rows = [[Fin 0]]\<rparr>],
       Z1_64 = Some \<lparr>ncols = 1, rows = [[Fin 0]]\<rparr>,
       A1_64 = Some \<lparr>ncols = 1, rows = [[Fin 0]]\<rparr>,
       Z2_64 = Some \<lparr>ncols = 1, rows = [[Fin 100]]\<rparr>,
       A2_64 = Some \<lparr>ncols = 1, rows = [[Fin 1]]\<rparr>\<rparr>, None)"
    unfolding fw fst_conv
    by (simp add: saturated_mlp64_def saturated_X64_def saturated_y64_def np_eval64
        rnd_1 l l' b)
  have fw2: "snd (forward64 libm
             (fst (backward64 (fst (forward64 libm saturated_mlp64 saturated_X64))
                     saturated_X64 saturated_y64)) saturated_X64)
       = Inr \<lparr>ncols = 1, rows = [[Fin 1]]\<rparr>"
    unfolding bw fst_conv
    by (simp add: saturated_X64_def np_eval64 c sc)
  show ?thesis
    unfolding fw2 unfolding bw unfolding fw by simp
qed

section \<open>The dataset generator\<close>

lemma draw_row_length: "length (fst (draw_row R n g)) = n"
proof (induction n arbitrary: g)
  case 0
  show ?case by simp
next
  case (Suc n)
  obtain x g1 where x: "gauss R g = (x, g1)" by (cases "gauss R g")
  obtain xs g2 where xs: "draw_row R n g1 = (xs, g2)" by (cases "draw_row R n g1")
  have "length xs = n" using Suc[of g1] xs by simp
  then show ?case by (simp add: x xs)
qed

lemma draw_rows_shape:
  "length (fst (draw_rows R m n g)) = m
   \<and> list_all (\<lambda>r. length r = n) (fst (draw_rows R m n g))"
proof (induction m arbitrary: g)
  case 0
  show ?case by simp
next
  case (Suc m)
  obtain r g1 where r: "draw_row R n g = (r, g1)" by (cases "draw_row R n g")
  obtain rs g2 where rs: "draw_rows R m n g1 = (rs, g2)" by (cases "draw_rows R m n g1")
  have "length r = n" using draw_row_length[of R n g] r by simp
  moreover have "length rs = m \<and> list_all (\<lambda>r. length r = n) rs"
    using Suc[of g1] rs by simp
  ultimately show ?case by (simp add: r rs)
qed

lemma randn_shape: "has_shape (fst (randn R m n g)) m n"
proof -
  obtain rs g1 where rs: "draw_rows R m n g = (rs, g1)" by (cases "draw_rows R m n g")
  then show ?thesis
    using draw_rows_shape[of R m n g] by (simp add: randn_def has_shape_def)
qed

text \<open>
  C4. \<open>generate_data(n)\<close> returns \<open>n\<close> points of the plane and \<open>n\<close> labels, one per
  point, and the label of point \<open>i\<close> is 1 when the sum of the squares of its two
  coordinates exceeds 1, and 0 otherwise.
\<close>

theorem generate_data_labels:
  "case fst (generate_data R g n) of
     (X, y) \<Rightarrow>
       has_shape X n 2 \<and> has_shape y n 1
       \<and> (\<forall>i<n. entry y i 0 = (if (entry X i 0)\<^sup>2 + (entry X i 1)\<^sup>2 > 1 then 1 else 0))"
proof -
  obtain X g1 where X: "randn R n 2 (seed R 0) = (X, g1)" by (cases "randn R n 2 (seed R 0)")
  have sh: "has_shape X n 2" using randn_shape[of R n 2 "seed R 0"] X by simp
  then have len: "length (rows X) = n" by (simp add: has_shape_def)
  show ?thesis
    using sh len
    by (simp add: generate_data_def X Let_def has_shape_def reshape_column_def column_def
        entry_def list_all_iff)
qed

theorem generate_data_labels_witness:
  "has_shape (fst (fst (generate_data counting_rng (5::nat) 2))) 2 2
   \<and> entry (snd (fst (generate_data counting_rng (5::nat) 2))) 0 0 = 0
   \<and> entry (snd (fst (generate_data counting_rng (5::nat) 2))) 1 0 = 1"
  using generate_data_labels[where R = counting_rng
      and g = "5::nat" and n = 2]
  by (simp add: generate_data_def counting_rng_def randn_def numeral_2_eq_2 Let_def column_def
      reshape_column_def entry_def has_shape_def split: prod.splits)

text \<open>
  C8. \<open>generate_data(n)\<close> reseeds the generator itself, so its result does not depend on
  the generator's state before the call: two calls with the same \<open>n\<close> return the same
  \<open>(X, y)\<close>, in particular a call and the call that follows it.
\<close>

theorem generate_data_deterministic:
  "generate_data R g n = generate_data R g' n
   \<and> fst (generate_data R (snd (generate_data R g n)) n) = fst (generate_data R g n)"
  by (simp add: generate_data_def)

end
